theory Spec2Isabelle
  imports Main "HOL-Library.Sublist"
begin

section \<open>The pipeline driver \<open>main.py\<close>\<close>

text \<open>
  \<open>main.py\<close> holds one function, \<open>go\<close>, and one module constant, \<open>_steps\<close>.
  \<open>go\<close> reads a configuration, sets two environment variables, works out the list of
  active steps and then, inside a temporary directory, walks through six \<open>if\<close> blocks in
  a fixed order; each block whose name is in the list builds a parameter dictionary and
  hands it to \<open>mlflow.run\<close>.

  The embedding makes every effect an event of a trace and every exception a value:
  \<open>go\<close> returns the list of events it caused, in order, together with either the
  exception that left it or \<open>()\<close>.
\<close>

subsection \<open>Configuration values and exceptions\<close>

text \<open>
  A configuration value is a string, a mapping, or another scalar (a number, a boolean,
  \<open>None\<close>). The script never looks inside a scalar, it only passes it on, so scalars are
  a type parameter. A mapping is an association list in the order of the configuration
  file; a lookup takes the first binding of a key. Sequences are not modelled.
\<close>

datatype 'a cval = Str string | Scalar 'a | Dict "(string \<times> 'a cval) list"

type_synonym 'a config = "(string \<times> 'a cval) list"

datatype py_error = KeyError | TypeError | AttributeError | ExecutionException

text \<open>Exceptions propagate: the first failing sub-expression decides the result.\<close>

definition and_then :: "py_error + 'b \<Rightarrow> ('b \<Rightarrow> py_error + 'c) \<Rightarrow> py_error + 'c" where
  "and_then m f = (case m of Inl e \<Rightarrow> Inl e | Inr x \<Rightarrow> f x)"

text \<open>
  \<open>v[k]\<close>: a missing key of a mapping raises (the configuration handed over by
  \<open>hydra.main\<close> is in struct mode); a string or a scalar cannot be subscripted by a key.
\<close>

fun subscript :: "'a cval \<Rightarrow> string \<Rightarrow> py_error + 'a cval" where
  "subscript (Dict kvs) k = (case map_of kvs k of None \<Rightarrow> Inl KeyError | Some v \<Rightarrow> Inr v)"
| "subscript (Str s) k = Inl TypeError"
| "subscript (Scalar a) k = Inl TypeError"

fun is_mapping :: "'a cval \<Rightarrow> bool" where
  "is_mapping (Dict kvs) = True"
| "is_mapping (Str s) = False"
| "is_mapping (Scalar a) = False"

text \<open>\<open>config[section][key]\<close>\<close>

definition cfg_get :: "'a config \<Rightarrow> string \<Rightarrow> string \<Rightarrow> py_error + 'a cval" where
  "cfg_get config section key = and_then (subscript (Dict config) section) (\<lambda>d. subscript d key)"

text \<open>
  \<open>v + "literal"\<close> and \<open>"string" + v\<close>: string concatenation, a \<open>TypeError\<close> when \<open>v\<close> is
  not a string. Every \<open>+\<close> of the script has a string on one side.
\<close>

fun add_literal :: "'a cval \<Rightarrow> string \<Rightarrow> py_error + string" where
  "add_literal (Str s) lit = Inr (s @ lit)"
| "add_literal (Scalar a) lit = Inl TypeError"
| "add_literal (Dict kvs) lit = Inl TypeError"

fun add_value :: "string \<Rightarrow> 'a cval \<Rightarrow> py_error + string" where
  "add_value s (Str t) = Inr (s @ t)"
| "add_value s (Scalar a) = Inl TypeError"
| "add_value s (Dict kvs) = Inl TypeError"

text \<open>\<open>s.split(sep)\<close> with a one-character separator: \<open>"".split(",")\<close> is \<open>[""]\<close>.\<close>

fun py_split :: "char \<Rightarrow> string \<Rightarrow> string list" where
  "py_split sep [] = [[]]"
| "py_split sep (c # cs) =
     (if c = sep then [] # py_split sep cs
      else (case py_split sep cs of w # ws \<Rightarrow> (c # w) # ws | [] \<Rightarrow> [[c]]))"

subsection \<open>Stages, invocations, events\<close>

text \<open>The six \<open>if\<close> blocks of \<open>go\<close>, in program order, and the name each one tests for.\<close>

datatype stage =
  Download | BasicCleaning | DataCheck | DataSplit | TrainRandomForest | TestRegressionModel

fun stage_name :: "stage \<Rightarrow> string" where
  "stage_name Download = ''download''"
| "stage_name BasicCleaning = ''basic_cleaning''"
| "stage_name DataCheck = ''data_check''"
| "stage_name DataSplit = ''data_split''"
| "stage_name TrainRandomForest = ''train_random_forest''"
| "stage_name TestRegressionModel = ''test_regression_model''"

definition program_order :: "stage list" where
  "program_order =
     [Download, BasicCleaning, DataCheck, DataSplit, TrainRandomForest, TestRegressionModel]"

text \<open>The arguments of one call \<open>mlflow.run(uri, entry_point, version=..., parameters=...)\<close>.\<close>

record 'a invocation =
  uri :: string
  entry_point :: string
  version :: "string option"
  parameters :: "(string \<times> 'a cval) list"

datatype 'a event =
    SetEnv string string
  | MkTmpDir string
  | RmTmpDir string
  | OpenWrite string
  | JsonDump string "(string \<times> 'a cval) list"
  | Run stage "'a invocation"

text \<open>
  What the script takes from outside: Hydra's original working directory,
  \<open>os.path.join\<close> and \<open>os.path.abspath\<close> of the platform, \<open>str()\<close> of a value that is not
  a string (for the f-strings), the name \<open>tempfile\<close> picks, and whether a call of
  \<open>mlflow.run\<close> returns (\<open>None\<close>) or raises.
\<close>

record 'a env =
  get_original_cwd :: string
  path_join :: "string \<Rightarrow> string \<Rightarrow> string \<Rightarrow> string"
  abspath :: "string \<Rightarrow> string"
  py_str :: "'a cval \<Rightarrow> string"
  mkdtemp :: string
  mlflow_run :: "'a invocation \<Rightarrow> py_error option"

type_synonym ('a, 'b) action = "'a event list \<times> (py_error + 'b)"

definition seq :: "('a, 'b) action \<Rightarrow> ('b \<Rightarrow> ('a, 'c) action) \<Rightarrow> ('a, 'c) action" where
  "seq m f =
     (case m of
        (tr, Inl e) \<Rightarrow> (tr, Inl e)
      | (tr, Inr x) \<Rightarrow> (case f x of (tr', r) \<Rightarrow> (tr @ tr', r)))"

definition pure :: "py_error + 'b \<Rightarrow> ('a, 'b) action" where
  "pure r = ([], r)"

text \<open>\<open>os.environ[name] = v\<close>: \<open>v\<close> has to be a string.\<close>

definition setenv :: "string \<Rightarrow> py_error + 'a cval \<Rightarrow> ('a, unit) action" where
  "setenv name v =
     (case v of
        Inl e \<Rightarrow> ([], Inl e)
      | Inr (Str s) \<Rightarrow> ([SetEnv name s], Inr ())
      | Inr _ \<Rightarrow> ([], Inl TypeError))"

text \<open>
  One call of \<open>mlflow.run\<close>: the arguments are evaluated first, and an exception there
  means that no call is made.
\<close>

definition call_mlflow :: "'a env \<Rightarrow> stage \<Rightarrow> py_error + 'a invocation \<Rightarrow> ('a, unit) action" where
  "call_mlflow env st args =
     (case args of
        Inl e \<Rightarrow> ([], Inl e)
      | Inr call \<Rightarrow>
          ([Run st call], case mlflow_run env call of None \<Rightarrow> Inr () | Some e \<Rightarrow> Inl e))"

text \<open>\<open>with tempfile.TemporaryDirectory() as tmp_dir:\<close> removes the directory on every exit.\<close>

definition with_tmpdir :: "'a env \<Rightarrow> ('a, 'b) action \<Rightarrow> ('a, 'b) action" where
  "with_tmpdir env body = (MkTmpDir (mkdtemp env) # fst body @ [RmTmpDir (mkdtemp env)], snd body)"

subsection \<open>The module constant and the active steps\<close>

text \<open>\<open>_steps\<close>; \<open>"test_regression_model"\<close> is commented out in the source.\<close>

definition steps :: "string list" where
  "steps = [''download'', ''basic_cleaning'', ''data_check'', ''data_split'',
            ''train_random_forest'']"

text \<open>
  \<open>steps_par = config['main']['steps']\<close>,
  \<open>active_steps = steps_par.split(",") if steps_par != "all" else _steps\<close>.
  A value that is not a string differs from \<open>"all"\<close> and has no \<open>split\<close>.
\<close>

definition active_steps :: "'a config \<Rightarrow> py_error + string list" where
  "active_steps config =
     and_then (cfg_get config ''main'' ''steps'') (\<lambda>steps_par.
       case steps_par of
         Str s \<Rightarrow> if s \<noteq> ''all'' then Inr (py_split CHR '','' s) else Inr steps
       | _ \<Rightarrow> Inl AttributeError)"

subsection \<open>Parameter dictionaries\<close>

text \<open>
  \<open>config["main"]["project_name"] + "/" + config[section][key] + ":" + config["main"][tag]\<close>,
  operands evaluated left to right.
\<close>

definition artifact_ref :: "'a config \<Rightarrow> string \<Rightarrow> string \<Rightarrow> string \<Rightarrow> py_error + 'a cval" where
  "artifact_ref config section key tag =
     and_then (cfg_get config ''main'' ''project_name'') (\<lambda>project.
     and_then (add_literal project ''/'') (\<lambda>s1.
     and_then (cfg_get config section key) (\<lambda>name.
     and_then (add_value s1 name) (\<lambda>s2.
     and_then (cfg_get config ''main'' tag) (\<lambda>t.
     and_then (add_value (s2 @ '':'') t) (\<lambda>s3. Inr (Str s3)))))))"

text \<open>\<open>f"{config['main']['components_repository']}/component"\<close>\<close>

definition component_uri :: "'a env \<Rightarrow> 'a config \<Rightarrow> string \<Rightarrow> py_error + string" where
  "component_uri env config component =
     and_then (cfg_get config ''main'' ''components_repository'') (\<lambda>repo.
       Inr ((case repo of Str s \<Rightarrow> s | _ \<Rightarrow> py_str env repo) @ ''/'' @ component))"

text \<open>\<open>os.path.join(hydra.utils.get_original_cwd(), "src", component)\<close>\<close>

definition local_uri :: "'a env \<Rightarrow> string \<Rightarrow> py_error + string" where
  "local_uri env component = Inr (path_join env (get_original_cwd env) ''src'' component)"

definition download_parameters :: "'a config \<Rightarrow> py_error + (string \<times> 'a cval) list" where
  "download_parameters config =
     and_then (cfg_get config ''etl'' ''sample'') (\<lambda>sample.
       Inr [(''sample'', sample),
            (''artifact_name'', Str ''sample.csv''),
            (''artifact_type'', Str ''raw_data''),
            (''artifact_description'', Str ''Raw file as downloaded'')])"

definition basic_cleaning_parameters :: "'a config \<Rightarrow> py_error + (string \<times> 'a cval) list" where
  "basic_cleaning_parameters config =
     and_then (artifact_ref config ''basic_cleaning'' ''input_artifact'' ''latest_tag'') (\<lambda>input_artifact.
     and_then (cfg_get config ''basic_cleaning'' ''output_artifact'') (\<lambda>output_artifact.
     and_then (cfg_get config ''etl'' ''min_price'') (\<lambda>min_price.
     and_then (cfg_get config ''etl'' ''max_price'') (\<lambda>max_price.
       Inr [(''input_artifact'', input_artifact),
            (''output_artifact'', output_artifact),
            (''output_type'', Str ''clean_sample''),
            (''output_description'', Str ''Data with outliers removed and date converted''),
            (''min_price'', min_price),
            (''max_price'', max_price)]))))"

definition data_check_parameters :: "'a config \<Rightarrow> py_error + (string \<times> 'a cval) list" where
  "data_check_parameters config =
     and_then (artifact_ref config ''basic_cleaning'' ''output_artifact'' ''latest_tag'') (\<lambda>csv.
     and_then (artifact_ref config ''basic_cleaning'' ''output_artifact'' ''reference_tag'') (\<lambda>ref.
     and_then (cfg_get config ''data_check'' ''kl_threshold'') (\<lambda>kl_threshold.
     and_then (cfg_get config ''etl'' ''min_price'') (\<lambda>min_price.
     and_then (cfg_get config ''etl'' ''max_price'') (\<lambda>max_price.
       Inr [(''csv'', csv),
            (''ref'', ref),
            (''kl_threshold'', kl_threshold),
            (''min_price'', min_price),
            (''max_price'', max_price)])))))"

definition data_split_parameters :: "'a config \<Rightarrow> py_error + (string \<times> 'a cval) list" where
  "data_split_parameters config =
     and_then (artifact_ref config ''basic_cleaning'' ''output_artifact'' ''latest_tag'') (\<lambda>input.
     and_then (cfg_get config ''modeling'' ''test_size'') (\<lambda>test_size.
     and_then (cfg_get config ''modeling'' ''random_seed'') (\<lambda>random_seed.
     and_then (cfg_get config ''modeling'' ''stratify_by'') (\<lambda>stratify_by.
       Inr [(''input'', input),
            (''test_size'', test_size),
            (''random_seed'', random_seed),
            (''stratify_by'', stratify_by)]))))"

text \<open>\<open>rf_config\<close> is the path computed by \<open>os.path.abspath("rf_config.json")\<close>.\<close>

definition train_random_forest_parameters ::
    "string \<Rightarrow> 'a config \<Rightarrow> py_error + (string \<times> 'a cval) list" where
  "train_random_forest_parameters rf_config config =
     and_then (artifact_ref config ''modeling'' ''trainval_artifact'' ''latest_tag'') (\<lambda>trainval_artifact.
     and_then (cfg_get config ''modeling'' ''val_size'') (\<lambda>val_size.
     and_then (cfg_get config ''modeling'' ''random_seed'') (\<lambda>random_seed.
     and_then (cfg_get config ''modeling'' ''stratify_by'') (\<lambda>stratify_by.
     and_then (cfg_get config ''modeling'' ''max_tfidf_features'') (\<lambda>max_tfidf_features.
     and_then (cfg_get config ''modeling'' ''output_artifact'') (\<lambda>output_artifact.
       Inr [(''trainval_artifact'', trainval_artifact),
            (''val_size'', val_size),
            (''random_seed'', random_seed),
            (''stratify_by'', stratify_by),
            (''rf_config'', Str rf_config),
            (''max_tfidf_features'', max_tfidf_features),
            (''output_artifact'', output_artifact)]))))))"

definition test_regression_model_parameters :: "'a config \<Rightarrow> py_error + (string \<times> 'a cval) list" where
  "test_regression_model_parameters config =
     and_then (artifact_ref config ''modeling'' ''output_artifact'' ''prod_tag'') (\<lambda>mlflow_model.
     and_then (artifact_ref config ''modeling'' ''test_artifact'' ''latest_tag'') (\<lambda>test_dataset.
       Inr [(''mlflow_model'', mlflow_model),
            (''test_dataset'', test_dataset)]))"

text \<open>
  The arguments of \<open>mlflow.run\<close>, evaluated left to right: the URI, the entry point
  \<open>"main"\<close>, the version (only the download block passes one), the parameters.
\<close>

definition run_args ::
    "py_error + string \<Rightarrow> string option \<Rightarrow> py_error + (string \<times> 'a cval) list \<Rightarrow>
     py_error + 'a invocation" where
  "run_args u v ps =
     and_then u (\<lambda>u'. and_then ps (\<lambda>ps'.
       Inr \<lparr>uri = u', entry_point = ''main'', version = v, parameters = ps'\<rparr>))"

subsection \<open>The six blocks and \<open>go\<close>\<close>

definition skip :: "('a, unit) action" where
  "skip = ([], Inr ())"

definition download_block :: "'a env \<Rightarrow> 'a config \<Rightarrow> string list \<Rightarrow> ('a, unit) action" where
  "download_block env config active =
     (if ''download'' \<in> set active
      then call_mlflow env Download
             (run_args (component_uri env config ''get_data'') (Some ''main'')
                (download_parameters config))
      else skip)"

definition basic_cleaning_block :: "'a env \<Rightarrow> 'a config \<Rightarrow> string list \<Rightarrow> ('a, unit) action" where
  "basic_cleaning_block env config active =
     (if ''basic_cleaning'' \<in> set active
      then call_mlflow env BasicCleaning
             (run_args (local_uri env ''basic_cleaning'') None (basic_cleaning_parameters config))
      else skip)"

definition data_check_block :: "'a env \<Rightarrow> 'a config \<Rightarrow> string list \<Rightarrow> ('a, unit) action" where
  "data_check_block env config active =
     (if ''data_check'' \<in> set active
      then call_mlflow env DataCheck
             (run_args (local_uri env ''data_check'') None (data_check_parameters config))
      else skip)"

definition data_split_block :: "'a env \<Rightarrow> 'a config \<Rightarrow> string list \<Rightarrow> ('a, unit) action" where
  "data_split_block env config active =
     (if ''data_split'' \<in> set active
      then call_mlflow env DataSplit
             (run_args (component_uri env config ''train_val_test_split'') None
                (data_split_parameters config))
      else skip)"

text \<open>
  \<open>open(rf_config, "w+")\<close> creates or truncates the file before anything is looked up;
  \<open>config["modeling"]["random_forest"].items()\<close> needs a mapping, and \<open>json.dump\<close> can
  serialise strings and scalars but not a nested configuration mapping.
\<close>

definition write_rf_config :: "string \<Rightarrow> 'a config \<Rightarrow> ('a, unit) action" where
  "write_rf_config rf_config config =
     seq ([OpenWrite rf_config], Inr ()) (\<lambda>_.
       case cfg_get config ''modeling'' ''random_forest'' of
         Inl e \<Rightarrow> ([], Inl e)
       | Inr (Dict items) \<Rightarrow>
           if list_ex is_mapping (map snd items) then ([], Inl TypeError)
           else ([JsonDump rf_config items], Inr ())
       | Inr _ \<Rightarrow> ([], Inl AttributeError))"

definition train_random_forest_block ::
    "'a env \<Rightarrow> 'a config \<Rightarrow> string list \<Rightarrow> ('a, unit) action" where
  "train_random_forest_block env config active =
     (if ''train_random_forest'' \<in> set active
      then (let rf_config = abspath env ''rf_config.json'' in
            seq (write_rf_config rf_config config) (\<lambda>_.
              call_mlflow env TrainRandomForest
                (run_args (local_uri env ''train_random_forest'') None
                   (train_random_forest_parameters rf_config config))))
      else skip)"

definition test_regression_model_block ::
    "'a env \<Rightarrow> 'a config \<Rightarrow> string list \<Rightarrow> ('a, unit) action" where
  "test_regression_model_block env config active =
     (if ''test_regression_model'' \<in> set active
      then call_mlflow env TestRegressionModel
             (run_args (component_uri env config ''test_regression_model'') None
                (test_regression_model_parameters config))
      else skip)"

text \<open>The body of the \<open>with\<close> statement: the six blocks one after the other.\<close>

definition stages :: "'a env \<Rightarrow> 'a config \<Rightarrow> string list \<Rightarrow> ('a, unit) action" where
  "stages env config active =
     seq (download_block env config active) (\<lambda>_.
     seq (basic_cleaning_block env config active) (\<lambda>_.
     seq (data_check_block env config active) (\<lambda>_.
     seq (data_split_block env config active) (\<lambda>_.
     seq (train_random_forest_block env config active) (\<lambda>_.
     test_regression_model_block env config active)))))"

definition go :: "'a env \<Rightarrow> 'a config \<Rightarrow> ('a, unit) action" where
  "go env config =
     seq (setenv ''WANDB_PROJECT'' (cfg_get config ''main'' ''project_name'')) (\<lambda>_.
     seq (setenv ''WANDB_RUN_GROUP'' (cfg_get config ''main'' ''experiment_name'')) (\<lambda>_.
     seq (pure (active_steps config)) (\<lambda>active.
     with_tmpdir env (stages env config active))))"

section \<open>Observations on traces\<close>

text \<open>
  What the properties look at in a trace: the calls of \<open>mlflow.run\<close> with the block that
  made them, the stages of those calls, the events that touch a file, and the temporary
  directories that exist after the trace when \<open>ds\<close> existed before it.
\<close>

fun runs_of :: "'a event list \<Rightarrow> (stage \<times> 'a invocation) list" where
  "runs_of [] = []"
| "runs_of (Run st c # tr) = (st, c) # runs_of tr"
| "runs_of (e # tr) = runs_of tr"

definition invoked :: "'a event list \<Rightarrow> stage list" where
  "invoked tr = map fst (runs_of tr)"

fun writes_of :: "'a event list \<Rightarrow> 'a event list" where
  "writes_of [] = []"
| "writes_of (OpenWrite p # tr) = OpenWrite p # writes_of tr"
| "writes_of (JsonDump p items # tr) = JsonDump p items # writes_of tr"
| "writes_of (e # tr) = writes_of tr"

fun tmp_dirs :: "'a event list \<Rightarrow> string list \<Rightarrow> string list" where
  "tmp_dirs [] ds = ds"
| "tmp_dirs (MkTmpDir d # tr) ds = tmp_dirs tr (d # ds)"
| "tmp_dirs (RmTmpDir d # tr) ds = tmp_dirs tr (removeAll d ds)"
| "tmp_dirs (e # tr) ds = tmp_dirs tr ds"

subsection \<open>The six blocks in one shape\<close>

text \<open>
  For the proofs the six blocks are read as instances of one pattern: if the name of the
  stage is active, run the preparation of the stage (only the training stage has one,
  the writing of \<open>rf_config.json\<close>) and then call \<open>mlflow.run\<close> with the arguments of the
  stage. \<open>stage_block\<close> selects the block of the source, and \<open>stage_block_eq\<close> below shows
  that each block has this shape; \<open>seq_all\<close> runs a list of actions one after the other.
\<close>

fun seq_all :: "('a, unit) action list \<Rightarrow> ('a, unit) action" where
  "seq_all [] = skip"
| "seq_all (a # as) = seq a (\<lambda>_. seq_all as)"

fun stage_parameters :: "string \<Rightarrow> 'a config \<Rightarrow> stage \<Rightarrow> py_error + (string \<times> 'a cval) list" where
  "stage_parameters rf_config config Download = download_parameters config"
| "stage_parameters rf_config config BasicCleaning = basic_cleaning_parameters config"
| "stage_parameters rf_config config DataCheck = data_check_parameters config"
| "stage_parameters rf_config config DataSplit = data_split_parameters config"
| "stage_parameters rf_config config TrainRandomForest = train_random_forest_parameters rf_config config"
| "stage_parameters rf_config config TestRegressionModel = test_regression_model_parameters config"

fun stage_uri :: "'a env \<Rightarrow> 'a config \<Rightarrow> stage \<Rightarrow> py_error + string" where
  "stage_uri env config Download = component_uri env config ''get_data''"
| "stage_uri env config BasicCleaning = local_uri env ''basic_cleaning''"
| "stage_uri env config DataCheck = local_uri env ''data_check''"
| "stage_uri env config DataSplit = component_uri env config ''train_val_test_split''"
| "stage_uri env config TrainRandomForest = local_uri env ''train_random_forest''"
| "stage_uri env config TestRegressionModel = component_uri env config ''test_regression_model''"

definition stage_args :: "'a env \<Rightarrow> 'a config \<Rightarrow> stage \<Rightarrow> py_error + 'a invocation" where
  "stage_args env config st =
     run_args (stage_uri env config st) (if st = Download then Some ''main'' else None)
       (stage_parameters (abspath env ''rf_config.json'') config st)"

fun stage_setup :: "'a env \<Rightarrow> 'a config \<Rightarrow> stage \<Rightarrow> ('a, unit) action" where
  "stage_setup env config TrainRandomForest = write_rf_config (abspath env ''rf_config.json'') config"
| "stage_setup env config st = skip"

fun stage_block :: "'a env \<Rightarrow> 'a config \<Rightarrow> string list \<Rightarrow> stage \<Rightarrow> ('a, unit) action" where
  "stage_block env config active Download = download_block env config active"
| "stage_block env config active BasicCleaning = basic_cleaning_block env config active"
| "stage_block env config active DataCheck = data_check_block env config active"
| "stage_block env config active DataSplit = data_split_block env config active"
| "stage_block env config active TrainRandomForest = train_random_forest_block env config active"
| "stage_block env config active TestRegressionModel = test_regression_model_block env config active"

subsection \<open>Vocabulary of the properties\<close>

text \<open>
  The six names the blocks test for; the recognized names that occur in a list, in program
  order; the keys each block puts into its dictionary; and the configuration entries each
  block reads for it, as written in the source.
\<close>

definition stage_names :: "string list" where
  "stage_names = map stage_name program_order"

definition recognized :: "string list \<Rightarrow> string list" where
  "recognized active = filter (\<lambda>n. n \<in> set active) stage_names"


fun stage_entries :: "stage \<Rightarrow> (string \<times> string) list" where
  "stage_entries Download = [(''etl'', ''sample'')]"
| "stage_entries BasicCleaning =
     [(''main'', ''project_name''), (''basic_cleaning'', ''input_artifact''), (''main'', ''latest_tag''),
      (''basic_cleaning'', ''output_artifact''), (''etl'', ''min_price''), (''etl'', ''max_price'')]"
| "stage_entries DataCheck =
     [(''main'', ''project_name''), (''basic_cleaning'', ''output_artifact''), (''main'', ''latest_tag''),
      (''main'', ''reference_tag''), (''data_check'', ''kl_threshold''),
      (''etl'', ''min_price''), (''etl'', ''max_price'')]"
| "stage_entries DataSplit =
     [(''main'', ''project_name''), (''basic_cleaning'', ''output_artifact''), (''main'', ''latest_tag''),
      (''modeling'', ''test_size''), (''modeling'', ''random_seed''), (''modeling'', ''stratify_by'')]"
| "stage_entries TrainRandomForest =
     [(''main'', ''project_name''), (''modeling'', ''trainval_artifact''), (''main'', ''latest_tag''),
      (''modeling'', ''val_size''), (''modeling'', ''random_seed''), (''modeling'', ''stratify_by''),
      (''modeling'', ''max_tfidf_features''), (''modeling'', ''output_artifact'')]"
| "stage_entries TestRegressionModel =
     [(''main'', ''project_name''), (''modeling'', ''output_artifact''), (''main'', ''prod_tag''),
      (''modeling'', ''test_artifact''), (''main'', ''latest_tag'')]"

text \<open>
  What a stage needs from the configuration: the entries its block reads, strings where
  the block concatenates them, and for the training stage a \<open>modeling.random_forest\<close> that
  \<open>json.dump\<close> can write (\<open>rf_items\<close>). \<open>names_ok\<close> is what lines 28 and 29 need. A stage
  returns when it is ready and the run called with its arguments returns.
  \<open>called_stages\<close> walks a list of stages as \<open>go\<close> walks its blocks: it goes on after a
  stage that returns, and stops after a stage that is called and raises or before one
  that is not ready. \<open>earlier st\<close> are the stages before \<open>st\<close> in program order.
\<close>

definition has_entry :: "'a config \<Rightarrow> string \<Rightarrow> string \<Rightarrow> bool" where
  "has_entry config section key =
     (case cfg_get config section key of Inr v \<Rightarrow> True | Inl e \<Rightarrow> False)"

definition has_string :: "'a config \<Rightarrow> string \<Rightarrow> string \<Rightarrow> bool" where
  "has_string config section key =
     (case cfg_get config section key of Inr (Str s) \<Rightarrow> True | _ \<Rightarrow> False)"

definition has_artifact :: "'a config \<Rightarrow> string \<Rightarrow> string \<Rightarrow> string \<Rightarrow> bool" where
  "has_artifact config section key tag \<longleftrightarrow>
     has_string config ''main'' ''project_name'' \<and> has_string config section key \<and>
     has_string config ''main'' tag"

definition rf_items :: "'a config \<Rightarrow> (string \<times> 'a cval) list option" where
  "rf_items config =
     (case cfg_get config ''modeling'' ''random_forest'' of
        Inr (Dict items) \<Rightarrow> if list_ex is_mapping (map snd items) then None else Some items
      | _ \<Rightarrow> None)"

definition names_ok :: "'a config \<Rightarrow> bool" where
  "names_ok config \<longleftrightarrow>
     has_string config ''main'' ''project_name'' \<and> has_string config ''main'' ''experiment_name''"

fun stage_ready :: "'a config \<Rightarrow> stage \<Rightarrow> bool" where
  "stage_ready config Download \<longleftrightarrow>
     has_entry config ''main'' ''components_repository'' \<and> has_entry config ''etl'' ''sample''"
| "stage_ready config BasicCleaning \<longleftrightarrow>
     has_artifact config ''basic_cleaning'' ''input_artifact'' ''latest_tag'' \<and>
     has_entry config ''basic_cleaning'' ''output_artifact'' \<and>
     has_entry config ''etl'' ''min_price'' \<and> has_entry config ''etl'' ''max_price''"
| "stage_ready config DataCheck \<longleftrightarrow>
     has_artifact config ''basic_cleaning'' ''output_artifact'' ''latest_tag'' \<and>
     has_artifact config ''basic_cleaning'' ''output_artifact'' ''reference_tag'' \<and>
     has_entry config ''data_check'' ''kl_threshold'' \<and>
     has_entry config ''etl'' ''min_price'' \<and> has_entry config ''etl'' ''max_price''"
| "stage_ready config DataSplit \<longleftrightarrow>
     has_entry config ''main'' ''components_repository'' \<and>
     has_artifact config ''basic_cleaning'' ''output_artifact'' ''latest_tag'' \<and>
     has_entry config ''modeling'' ''test_size'' \<and> has_entry config ''modeling'' ''random_seed'' \<and>
     has_entry config ''modeling'' ''stratify_by''"
| "stage_ready config TrainRandomForest \<longleftrightarrow>
     rf_items config \<noteq> None \<and>
     has_artifact config ''modeling'' ''trainval_artifact'' ''latest_tag'' \<and>
     has_entry config ''modeling'' ''val_size'' \<and> has_entry config ''modeling'' ''random_seed'' \<and>
     has_entry config ''modeling'' ''stratify_by'' \<and>
     has_entry config ''modeling'' ''max_tfidf_features'' \<and>
     has_entry config ''modeling'' ''output_artifact''"
| "stage_ready config TestRegressionModel \<longleftrightarrow>
     has_entry config ''main'' ''components_repository'' \<and>
     has_artifact config ''modeling'' ''output_artifact'' ''prod_tag'' \<and>
     has_artifact config ''modeling'' ''test_artifact'' ''latest_tag''"

definition stage_returns :: "'a env \<Rightarrow> 'a config \<Rightarrow> stage \<Rightarrow> bool" where
  "stage_returns env config st \<longleftrightarrow>
     stage_ready config st \<and>
     (case stage_args env config st of Inr c \<Rightarrow> mlflow_run env c = None | Inl e \<Rightarrow> False)"

fun called_stages :: "(stage \<Rightarrow> bool) \<Rightarrow> (stage \<Rightarrow> bool) \<Rightarrow> stage list \<Rightarrow> stage list" where
  "called_stages ready returns [] = []"
| "called_stages ready returns (st # sts) =
     (if returns st then st # called_stages ready returns sts
      else if ready st then [st] else [])"

definition earlier :: "stage \<Rightarrow> stage list" where
  "earlier st = takeWhile (\<lambda>x. x \<noteq> st) program_order"

subsection \<open>Example environments and configurations\<close>

text \<open>
  A configuration in the layout of the project's \<open>config.yaml\<close>, with \<open>main.steps\<close> left
  open, and three environments: one in which every run succeeds, the same one in another
  working directory, and one in which the run of \<open>basic_cleaning\<close> raises. The
  invocations and the items below are what \<open>go\<close> computes on them.
\<close>

definition example_env :: "int env" where
  "example_env = \<lparr>get_original_cwd = ''/proj'',
            path_join = (\<lambda>a b c. a @ ''/'' @ b @ ''/'' @ c),
            abspath = (\<lambda>p. ''/run/a/'' @ p),
            py_str = (\<lambda>v. ''?''),
            mkdtemp = ''/tmp/tmp0'',
            mlflow_run = (\<lambda>c. None)\<rparr>"

definition example_config :: "string \<Rightarrow> int config" where
  "example_config s =
    [(''main'', Dict [(''components_repository'', Str ''https://example.org/repo#components''),
                      (''project_name'', Str ''nyc_airbnb''),
                      (''experiment_name'', Str ''development''),
                      (''steps'', Str s),
                      (''latest_tag'', Str ''latest''),
                      (''reference_tag'', Str ''reference''),
                      (''prod_tag'', Str ''prod'')]),
     (''etl'', Dict [(''sample'', Str ''sample1.csv''), (''min_price'', Scalar 10), (''max_price'', Scalar 350)]),
     (''basic_cleaning'', Dict [(''input_artifact'', Str ''sample.csv''), (''output_artifact'', Str ''clean_sample.csv'')]),
     (''data_check'', Dict [(''kl_threshold'', Scalar 2)]),
     (''modeling'', Dict [(''test_size'', Scalar 2), (''val_size'', Scalar 2), (''random_seed'', Scalar 42),
                          (''stratify_by'', Str ''neighbourhood_group''), (''max_tfidf_features'', Scalar 5),
                          (''trainval_artifact'', Str ''trainval_data.csv''),
                          (''test_artifact'', Str ''test_data.csv''),
                          (''output_artifact'', Str ''random_forest_export''),
                          (''random_forest'', Dict [(''n_estimators'', Scalar 100), (''criterion'', Str ''mae'')])])]"

definition moved_env :: "int env" where
  "moved_env = example_env\<lparr>abspath := (\<lambda>p. ''/run/b/'' @ p)\<rparr>"

definition failing_env :: "int env" where
  "failing_env = example_env\<lparr>mlflow_run :=
     (\<lambda>c. if uri c = ''/proj/src/basic_cleaning'' then Some ExecutionException else None)\<rparr>"

definition example_download_call :: "int invocation" where
  "example_download_call =
     \<lparr>uri = ''https://example.org/repo#components/get_data'',
      entry_point = ''main'', version = Some ''main'',
      parameters =
        [(''sample'', Str ''sample1.csv''),
         (''artifact_name'', Str ''sample.csv''),
         (''artifact_type'', Str ''raw_data''),
         (''artifact_description'', Str ''Raw file as downloaded'')]\<rparr>"

definition example_basic_cleaning_call :: "int invocation" where
  "example_basic_cleaning_call =
     \<lparr>uri = ''/proj/src/basic_cleaning'', entry_point = ''main'', version = None,
      parameters =
        [(''input_artifact'', Str ''nyc_airbnb/sample.csv:latest''),
         (''output_artifact'', Str ''clean_sample.csv''),
         (''output_type'', Str ''clean_sample''),
         (''output_description'', Str ''Data with outliers removed and date converted''),
         (''min_price'', Scalar 10), (''max_price'', Scalar 350)]\<rparr>"

definition example_data_check_call :: "int invocation" where
  "example_data_check_call =
     \<lparr>uri = ''/proj/src/data_check'', entry_point = ''main'', version = None,
      parameters =
        [(''csv'', Str ''nyc_airbnb/clean_sample.csv:latest''),
         (''ref'', Str ''nyc_airbnb/clean_sample.csv:reference''),
         (''kl_threshold'', Scalar 2), (''min_price'', Scalar 10),
         (''max_price'', Scalar 350)]\<rparr>"

definition example_data_split_call :: "int invocation" where
  "example_data_split_call =
     \<lparr>uri = ''https://example.org/repo#components/train_val_test_split'',
      entry_point = ''main'', version = None,
      parameters =
        [(''input'', Str ''nyc_airbnb/clean_sample.csv:latest''),
         (''test_size'', Scalar 2), (''random_seed'', Scalar 42),
         (''stratify_by'', Str ''neighbourhood_group'')]\<rparr>"

definition example_train_call :: "string \<Rightarrow> int invocation" where
  "example_train_call rf_config =
     \<lparr>uri = ''/proj/src/train_random_forest'', entry_point = ''main'', version = None,
      parameters =
        [(''trainval_artifact'', Str ''nyc_airbnb/trainval_data.csv:latest''),
         (''val_size'', Scalar 2), (''random_seed'', Scalar 42),
         (''stratify_by'', Str ''neighbourhood_group''),
         (''rf_config'', Str rf_config),
         (''max_tfidf_features'', Scalar 5),
         (''output_artifact'', Str ''random_forest_export'')]\<rparr>"

definition example_rf_items :: "(string \<times> int cval) list" where
  "example_rf_items = [(''n_estimators'', Scalar 100), (''criterion'', Str ''mae'')]"

definition example_test_call :: "int invocation" where
  "example_test_call =
     \<lparr>uri = ''https://example.org/repo#components/test_regression_model'',
      entry_point = ''main'', version = None,
      parameters =
        [(''mlflow_model'', Str ''nyc_airbnb/random_forest_export:prod''),
         (''test_dataset'', Str ''nyc_airbnb/test_data.csv:latest'')]\<rparr>"

definition bare_config :: "int config" where
  "bare_config = [(''main'', Dict [(''steps'', Str ''download'')])]"

section \<open>Properties\<close>

subsection \<open>Sequencing and the shape of a block\<close>

lemma runs_of_append [simp]: "runs_of (xs @ ys) = runs_of xs @ runs_of ys"
  by (induction xs rule: runs_of.induct) simp_all

lemma invoked_append [simp]: "invoked (xs @ ys) = invoked xs @ invoked ys"
  by (simp add: invoked_def)

lemma invoked_Nil [simp]: "invoked [] = []"
  by (simp add: invoked_def)

lemma writes_of_append [simp]: "writes_of (xs @ ys) = writes_of xs @ writes_of ys"
  by (induction xs rule: writes_of.induct) simp_all

lemma tmp_dirs_append [simp]: "tmp_dirs (xs @ ys) ds = tmp_dirs ys (tmp_dirs xs ds)"
  by (induction xs ds rule: tmp_dirs.induct) simp_all

lemma fst_seq: "fst (seq m f) = (case snd m of Inl e \<Rightarrow> fst m | Inr x \<Rightarrow> fst m @ fst (f x))"
  by (cases m) (simp add: seq_def split: sum.splits prod.splits)

lemma snd_seq: "snd (seq m f) = (case snd m of Inl e \<Rightarrow> Inl e | Inr x \<Rightarrow> snd (f x))"
  by (cases m) (simp add: seq_def split: sum.splits prod.splits)

lemma seq_skip_left [simp]: "seq skip f = f ()"
  by (simp add: seq_def skip_def split: prod.splits)

lemma seq_skip_right [simp]: "seq m (\<lambda>_. skip) = m"
  by (cases m) (simp add: seq_def skip_def split: sum.splits)

lemma fst_skip [simp]: "fst skip = []" and snd_skip [simp]: "snd skip = Inr ()"
  by (simp_all add: skip_def)

lemma stage_block_eq:
  "stage_block env config active st =
     (if stage_name st \<in> set active
      then seq (stage_setup env config st) (\<lambda>_. call_mlflow env st (stage_args env config st))
      else skip)"
  by (cases st)
     (simp_all add: download_block_def basic_cleaning_block_def data_check_block_def
        data_split_block_def train_random_forest_block_def test_regression_model_block_def
        stage_args_def Let_def)

lemma stages_eq: "stages env config active = seq_all (map (stage_block env config active) program_order)"
  by (simp add: stages_def program_order_def)

lemma runs_of_setup [simp]: "runs_of (fst (stage_setup env config st)) = []"
  by (cases st) (simp_all add: write_rf_config_def fst_seq split: sum.splits cval.splits)

lemma fst_call_mlflow:
  "fst (call_mlflow env st args) = (case args of Inl e \<Rightarrow> [] | Inr c \<Rightarrow> [Run st c])"
  by (simp add: call_mlflow_def split: sum.splits)

lemma snd_call_mlflow:
  "snd (call_mlflow env st args) =
     (case args of Inl e \<Rightarrow> Inl e
      | Inr c \<Rightarrow> (case mlflow_run env c of None \<Rightarrow> Inr () | Some e \<Rightarrow> Inl e))"
  by (simp add: call_mlflow_def split: sum.splits)

lemma block_inactive: "stage_name st \<notin> set active \<Longrightarrow> stage_block env config active st = skip"
  by (simp add: stage_block_eq)

lemma block_runs:
  "runs_of (fst (stage_block env config active st)) = [] \<or>
   (\<exists>c pre. stage_name st \<in> set active \<and> stage_args env config st = Inr c \<and>
      fst (stage_block env config active st) = pre @ [Run st c] \<and> runs_of pre = [] \<and>
      snd (stage_block env config active st) =
        (case mlflow_run env c of None \<Rightarrow> Inr () | Some e \<Rightarrow> Inl e))"
  by (auto simp add: stage_block_eq fst_seq snd_seq fst_call_mlflow snd_call_mlflow split: sum.splits)

lemma block_done:
  "snd (stage_block env config active st) = Inr () \<Longrightarrow> stage_name st \<in> set active \<Longrightarrow>
   \<exists>c. runs_of (fst (stage_block env config active st)) = [(st, c)]"
  by (auto simp add: stage_block_eq fst_seq snd_seq fst_call_mlflow snd_call_mlflow split: sum.splits)

subsection \<open>The body of the \<open>with\<close> statement\<close>

text \<open>
  By induction on the list of stages: the invoked stages are a prefix of the active stages
  in program order, all of them when no exception occurs; every call carries the arguments
  of its stage; a failing call ends the trace.
\<close>

lemma seq_all_prefix:
  "prefix (invoked (fst (seq_all (map (stage_block env config active) sts))))
     (filter (\<lambda>st. stage_name st \<in> set active) sts)"
proof (induction sts)
  case Nil
  show ?case by simp
next
  case (Cons s sts)
  let ?b = "stage_block env config active s"
  show ?case
  proof (cases "stage_name s \<in> set active")
    case False
    then show ?thesis using Cons.IH by (simp add: block_inactive)
  next
    case True
    show ?thesis
    proof (cases "snd ?b")
      case (Inl e)
      from block_runs [of env config active s]
      have "invoked (fst ?b) = [] \<or> invoked (fst ?b) = [s]"
        by (auto simp: invoked_def)
      then show ?thesis using True Inl by (auto simp: fst_seq)
    next
      case (Inr u)
      then have "snd ?b = Inr ()" by simp
      from block_done [OF this True] have "invoked (fst ?b) = [s]"
        by (auto simp: invoked_def)
      then show ?thesis using True Inr Cons.IH by (simp add: fst_seq)
    qed
  qed
qed

lemma seq_all_complete:
  "snd (seq_all (map (stage_block env config active) sts)) = Inr () \<Longrightarrow>
   invoked (fst (seq_all (map (stage_block env config active) sts))) =
     filter (\<lambda>st. stage_name st \<in> set active) sts"
proof (induction sts)
  case Nil
  show ?case by simp
next
  case (Cons s sts)
  let ?b = "stage_block env config active s"
  from Cons.prems have b: "snd ?b = Inr ()"
    and rest: "snd (seq_all (map (stage_block env config active) sts)) = Inr ()"
    by (auto simp: snd_seq split: sum.splits)
  show ?case
  proof (cases "stage_name s \<in> set active")
    case False
    then show ?thesis using Cons.IH [OF rest] by (simp add: block_inactive)
  next
    case True
    from block_done [OF b True] have "invoked (fst ?b) = [s]"
      by (auto simp: invoked_def)
    then show ?thesis using True b Cons.IH [OF rest] by (simp add: fst_seq)
  qed
qed

lemma seq_all_args:
  "(st, c) \<in> set (runs_of (fst (seq_all (map (stage_block env config active) sts)))) \<Longrightarrow>
   stage_args env config st = Inr c \<and> stage_name st \<in> set active \<and> st \<in> set sts"
proof (induction sts)
  case Nil
  then show ?case by simp
next
  case (Cons s sts)
  let ?b = "stage_block env config active s"
  from Cons.prems
  have "(st, c) \<in> set (runs_of (fst ?b)) \<or>
        (st, c) \<in> set (runs_of (fst (seq_all (map (stage_block env config active) sts))))"
    by (auto simp: fst_seq split: sum.splits)
  then show ?case
  proof
    assume "(st, c) \<in> set (runs_of (fst ?b))"
    with block_runs [of env config active s] show ?thesis by auto
  next
    assume "(st, c) \<in> set (runs_of (fst (seq_all (map (stage_block env config active) sts))))"
    from Cons.IH [OF this] show ?thesis by simp
  qed
qed

lemma seq_all_failure:
  "(st, c) \<in> set (runs_of (fst (seq_all (map (stage_block env config active) sts)))) \<Longrightarrow>
   mlflow_run env c = Some e \<Longrightarrow>
   snd (seq_all (map (stage_block env config active) sts)) = Inl e \<and>
   (\<exists>pre. fst (seq_all (map (stage_block env config active) sts)) = pre @ [Run st c])"
proof (induction sts)
  case Nil
  then show ?case by simp
next
  case (Cons s sts)
  let ?b = "stage_block env config active s"
  let ?rest = "seq_all (map (stage_block env config active) sts)"
  show ?case
  proof (cases "(st, c) \<in> set (runs_of (fst ?b))")
    case True
    with block_runs [of env config active s] Cons.prems(2)
    obtain pre where "fst ?b = pre @ [Run st c]" "snd ?b = Inl e"
      by auto
    then show ?thesis by (simp add: fst_seq snd_seq)
  next
    case False
    with Cons.prems(1) have ok: "snd ?b = Inr ()" and inrest: "(st, c) \<in> set (runs_of (fst ?rest))"
      by (auto simp: fst_seq split: sum.splits)
    from Cons.IH [OF inrest Cons.prems(2)]
    obtain pre where "snd ?rest = Inl e" "fst ?rest = pre @ [Run st c]" by auto
    then show ?thesis using ok by (simp add: fst_seq snd_seq)
  qed
qed

subsection \<open>\<open>go\<close>: stage selection\<close>

text \<open>
  \<open>go\<close> either fails before the \<open>with\<close> statement (a name for the environment is missing
  or is not a string, or the active steps cannot be computed), having called nothing and
  written nothing, or it runs the stages between the creation and the removal of the
  temporary directory.
\<close>

lemma go_cases [case_names early body]:
  assumes early: "\<And>e pre. go env config = (pre, Inl e) \<Longrightarrow> runs_of pre = [] \<Longrightarrow> writes_of pre = [] \<Longrightarrow>
                    tmp_dirs pre [] = [] \<Longrightarrow> P"
    and body: "\<And>p x active.
       cfg_get config ''main'' ''project_name'' = Inr (Str p) \<Longrightarrow>
       cfg_get config ''main'' ''experiment_name'' = Inr (Str x) \<Longrightarrow>
       active_steps config = Inr active \<Longrightarrow>
       go env config =
         (SetEnv ''WANDB_PROJECT'' p # SetEnv ''WANDB_RUN_GROUP'' x # MkTmpDir (mkdtemp env) #
            fst (stages env config active) @ [RmTmpDir (mkdtemp env)],
          snd (stages env config active)) \<Longrightarrow> P"
  shows P
proof (cases "cfg_get config ''main'' ''project_name''")
  case (Inl e)
  then show ?thesis by (intro early [of "[]" e]) (simp_all add: go_def setenv_def seq_def)
next
  case p: (Inr pv)
  show ?thesis
  proof (cases "\<exists>p. pv = Str p")
    case False
    then have "go env config = ([], Inl TypeError)"
      using p by (cases pv) (simp_all add: go_def setenv_def seq_def)
    then show ?thesis by (intro early [of "[]" TypeError]) simp_all
  next
    case True
    then obtain p' where pv: "pv = Str p'" by blast
    show ?thesis
    proof (cases "cfg_get config ''main'' ''experiment_name''")
      case (Inl e)
      then show ?thesis using p pv
        by (intro early [of "[SetEnv ''WANDB_PROJECT'' p']" e]) (simp_all add: go_def setenv_def seq_def)
    next
      case x: (Inr xv)
      show ?thesis
      proof (cases "\<exists>x. xv = Str x")
        case False
        then have "go env config = ([SetEnv ''WANDB_PROJECT'' p'], Inl TypeError)"
          using p pv x by (cases xv) (simp_all add: go_def setenv_def seq_def)
        then show ?thesis by (intro early [of "[SetEnv ''WANDB_PROJECT'' p']" TypeError]) simp_all
      next
        case True
        then obtain x' where xv: "xv = Str x'" by blast
        show ?thesis
        proof (cases "active_steps config")
          case (Inl e)
          then show ?thesis using p pv x xv
            by (intro early [of "[SetEnv ''WANDB_PROJECT'' p', SetEnv ''WANDB_RUN_GROUP'' x']" e])
               (simp_all add: go_def setenv_def seq_def pure_def)
        next
          case (Inr active)
          then show ?thesis using p pv x xv
            by (intro body [of p' x' active])
               (simp_all add: go_def setenv_def seq_def pure_def with_tmpdir_def split: prod.splits)
        qed
      qed
    qed
  qed
qed

lemmas model_defs =
  go_def setenv_def seq_def cfg_get_def and_then_def pure_def active_steps_def
  steps_def with_tmpdir_def stages_def download_block_def basic_cleaning_block_def
  data_check_block_def data_split_block_def train_random_forest_block_def
  test_regression_model_block_def skip_def call_mlflow_def run_args_def component_uri_def
  local_uri_def download_parameters_def basic_cleaning_parameters_def
  data_check_parameters_def data_split_parameters_def train_random_forest_parameters_def
  test_regression_model_parameters_def artifact_ref_def write_rf_config_def Let_def

lemma prefix_filter_program_order:
  assumes "prefix xs (filter P program_order)"
  shows "subseq xs program_order" and "distinct xs"
proof -
  have "subseq (filter P program_order) program_order" by simp
  with assms show "subseq xs program_order"
    using prefix_imp_subseq subseq_order.trans by blast
  have "distinct (filter P program_order)" by (simp add: program_order_def)
  with assms show "distinct xs" by (auto simp: prefix_def)
qed

lemma go_invoked_prefix:
  "active_steps config = Inr active \<Longrightarrow>
   prefix (invoked (fst (go env config))) (filter (\<lambda>st. stage_name st \<in> set active) program_order)"
proof (cases rule: go_cases [of env config])
  case (early e pre)
  then show ?thesis by (simp add: invoked_def)
next
  case (body p x active')
  assume "active_steps config = Inr active"
  with body have "active' = active" by simp
  with body(4) show ?thesis
    using seq_all_prefix [of env config active program_order]
    by (simp add: invoked_def stages_eq)
qed

lemma go_invoked_none: "active_steps config = Inl e \<Longrightarrow> runs_of (fst (go env config)) = []"
  by (cases rule: go_cases [of env config]) simp_all

lemma go_invoked_complete:
  "active_steps config = Inr active \<Longrightarrow> snd (go env config) = Inr () \<Longrightarrow>
   invoked (fst (go env config)) = filter (\<lambda>st. stage_name st \<in> set active) program_order"
proof (cases rule: go_cases [of env config])
  case (early e pre)
  assume "snd (go env config) = Inr ()"
  with early show ?thesis by simp
next
  case (body p x active')
  assume a: "active_steps config = Inr active" and ok: "snd (go env config) = Inr ()"
  with body have "active' = active" by simp
  with body(4) ok show ?thesis
    using seq_all_complete [of env config active program_order]
    by (simp add: invoked_def stages_eq)
qed

lemma active_steps_not_all:
  "cfg_get config ''main'' ''steps'' = Inr (Str s) \<Longrightarrow> s \<noteq> ''all'' \<Longrightarrow>
   active_steps config = Inr (py_split CHR '','' s)"
  by (simp add: active_steps_def and_then_def)

lemma active_steps_all:
  "cfg_get config ''main'' ''steps'' = Inr (Str ''all'') \<Longrightarrow> active_steps config = Inr steps"
  by (simp add: active_steps_def and_then_def)

subsection \<open>\<open>go\<close> reads the configuration through its entries\<close>

text \<open>
  Two configurations that agree on every entry except \<open>main.steps\<close>, with active steps
  that contain the same stage names, give the same execution.
\<close>

lemma stage_block_cong:
  assumes agree: "\<And>sec key. (sec, key) \<noteq> (''main'', ''steps'') \<Longrightarrow> cfg_get c' sec key = cfg_get c sec key"
    and sel: "stage_name st \<in> set a' \<longleftrightarrow> stage_name st \<in> set a"
  shows "stage_block env c' a' st = stage_block env c a st"
proof -
  have par: "stage_parameters rf c' st = stage_parameters rf c st" for rf
    by (cases st)
       (simp_all add: agree download_parameters_def basic_cleaning_parameters_def
          data_check_parameters_def data_split_parameters_def train_random_forest_parameters_def
          test_regression_model_parameters_def artifact_ref_def)
  have u: "stage_uri env c' st = stage_uri env c st"
    by (cases st) (simp_all add: agree component_uri_def)
  have s: "stage_setup env c' st = stage_setup env c st"
    by (cases st) (simp_all add: agree write_rf_config_def)
  show ?thesis
    by (simp add: stage_block_eq stage_args_def par u s sel)
qed

lemma seq_pure: "seq (pure (Inr x)) f = f x"
  by (simp add: seq_def pure_def split: prod.splits)

lemma stages_cong:
  assumes agree: "\<And>sec key. (sec, key) \<noteq> (''main'', ''steps'') \<Longrightarrow> cfg_get c' sec key = cfg_get c sec key"
    and sel: "\<And>st. stage_name st \<in> set a' \<longleftrightarrow> stage_name st \<in> set a"
  shows "stages env c' a' = stages env c a"
proof -
  have "stage_block env c' a' = stage_block env c a"
    by (rule ext) (rule stage_block_cong [OF agree sel])
  then show ?thesis by (simp add: stages_eq)
qed

lemma go_cong:
  assumes agree: "\<And>sec key. (sec, key) \<noteq> (''main'', ''steps'') \<Longrightarrow> cfg_get c' sec key = cfg_get c sec key"
    and a: "active_steps c = Inr a" and a': "active_steps c' = Inr a'"
    and sel: "recognized a' = recognized a"
  shows "go env c' = go env c"
proof -
  have "stage_name st \<in> set a' \<longleftrightarrow> stage_name st \<in> set a" for st
  proof -
    have "stage_name st \<in> set stage_names"
      by (cases st) (simp_all add: stage_names_def program_order_def)
    then have "stage_name st \<in> set a' \<longleftrightarrow> stage_name st \<in> set (recognized a')"
      and "stage_name st \<in> set a \<longleftrightarrow> stage_name st \<in> set (recognized a)"
      by (simp_all add: recognized_def)
    then show ?thesis by (simp add: sel)
  qed
  then have st: "stages env c' a' = stages env c a"
    by (intro stages_cong agree) simp_all
  show ?thesis
    by (simp add: go_def a a' seq_pure agree st)
qed

lemma go_invoked_subseq_distinct:
  "subseq (invoked (fst (go env config))) program_order \<and> distinct (invoked (fst (go env config)))"
proof (cases "active_steps config")
  case (Inl e)
  then show ?thesis by (simp add: invoked_def go_invoked_none)
next
  case (Inr active)
  from prefix_filter_program_order [OF go_invoked_prefix [OF Inr, of env]]
  show ?thesis by simp
qed

text \<open>
  Claim C4. The stages \<open>go\<close> invokes appear in the trace one after the other in program
  order, whatever the configuration; and two configurations that differ only in
  \<open>main.steps\<close>, with the same recognized names among their active steps in whatever
  order, give the same trace and the same result.
\<close>

theorem go_invokes_in_program_order:
  "subseq (invoked (fst (go env config))) program_order \<and>
   (\<forall>config' active active'.
      (\<forall>section key. (section, key) \<noteq> (''main'', ''steps'') \<longrightarrow>
         cfg_get config' section key = cfg_get config section key) \<and>
      active_steps config = Inr active \<and> active_steps config' = Inr active' \<and>
      recognized active' = recognized active \<longrightarrow>
      go env config' = go env config)"
proof (intro conjI allI impI)
  show "subseq (invoked (fst (go env config))) program_order"
    using go_invoked_subseq_distinct by blast
next
  fix config' :: "'a config" and active active'
  assume h: "(\<forall>section key. (section, key) \<noteq> (''main'', ''steps'') \<longrightarrow>
         cfg_get config' section key = cfg_get config section key) \<and>
      active_steps config = Inr active \<and> active_steps config' = Inr active' \<and>
      recognized active' = recognized active"
  show "go env config' = go env config"
    by (rule go_cong [of config' config active active']) (use h in simp_all)
qed

lemma distinct_count_le_1: "distinct xs \<Longrightarrow> length (filter (\<lambda>s. s = x) xs) \<le> 1"
  by (induction xs) (auto simp: filter_empty_conv)

text \<open>
  Claim C7. No stage occurs twice among the invocations of one execution of \<open>go\<close>,
  whatever \<open>main.steps\<close> holds: repeated names and failures cause no second call.
\<close>

theorem go_invokes_each_stage_at_most_once:
  "distinct (invoked (fst (go env config))) \<and>
   length (filter (\<lambda>s. s = st) (invoked (fst (go env config)))) \<le> 1"
proof -
  have d: "distinct (invoked (fst (go env config)))"
    using go_invoked_subseq_distinct by blast
  then have "length (filter (\<lambda>s. s = st) (invoked (fst (go env config)))) \<le> 1"
    by (rule distinct_count_le_1)
  with d show ?thesis by blast
qed

text \<open>
  Claim C6. If a call of \<open>mlflow.run\<close> made by \<open>go\<close> raises, that exception is the result
  of \<open>go\<close>, and the call is the last thing \<open>go\<close> does apart from the removal of the
  temporary directory by the \<open>with\<close> statement: no later stage is invoked.
\<close>

theorem run_failure_propagates:
  assumes "(st, c) \<in> set (runs_of (fst (go env config)))" and "mlflow_run env c = Some e"
  shows "snd (go env config) = Inl e \<and>
         (\<exists>pre. fst (go env config) = pre @ [Run st c, RmTmpDir (mkdtemp env)])"
proof (cases rule: go_cases [of env config])
  case (early e' pre)
  with assms(1) show ?thesis by simp
next
  case (body p x active)
  from assms(1) body(4)
  have "(st, c) \<in> set (runs_of (fst (seq_all (map (stage_block env config active) program_order))))"
    by (simp add: stages_eq)
  from seq_all_failure [OF this assms(2)]
  obtain pre where "snd (stages env config active) = Inl e"
    and "fst (stages env config active) = pre @ [Run st c]"
    by (auto simp: stages_eq)
  with body(4) show ?thesis by simp
qed

subsection \<open>The forwarded dictionaries\<close>

lemmas parameters_defs =
  download_parameters_def basic_cleaning_parameters_def data_check_parameters_def
  data_split_parameters_def train_random_forest_parameters_def
  test_regression_model_parameters_def

lemma and_then_Inr_iff: "and_then m f = Inr y \<longleftrightarrow> (\<exists>x. m = Inr x \<and> f x = Inr y)"
  by (cases m) (simp_all add: and_then_def)



lemma stage_parameters_entries:
  assumes "\<forall>(section, key) \<in> set (stage_entries st). cfg_get c' section key = cfg_get c section key"
  shows "stage_parameters rf c' st = stage_parameters rf c st"
  using assms by (cases st) (simp_all add: parameters_defs artifact_ref_def)

lemma stage_parameters_other:
  "st \<noteq> TrainRandomForest \<Longrightarrow> stage_parameters rf1 config st = stage_parameters rf2 config st"
  by (cases st) simp_all

lemma train_parameters_rf:
  "train_random_forest_parameters rf1 config = Inr ps1 \<Longrightarrow>
   train_random_forest_parameters rf2 config = Inr ps2 \<Longrightarrow>
   filter (\<lambda>kv. fst kv \<noteq> ''rf_config'') ps1 = filter (\<lambda>kv. fst kv \<noteq> ''rf_config'') ps2"
  by (auto simp: train_random_forest_parameters_def and_then_def split: sum.splits)

lemma stage_parameters_rf:
  "stage_parameters rf1 config st = Inr ps1 \<Longrightarrow> stage_parameters rf2 config st = Inr ps2 \<Longrightarrow>
   filter (\<lambda>kv. fst kv \<noteq> ''rf_config'') ps1 = filter (\<lambda>kv. fst kv \<noteq> ''rf_config'') ps2"
proof (cases "st = TrainRandomForest")
  case True
  assume "stage_parameters rf1 config st = Inr ps1" "stage_parameters rf2 config st = Inr ps2"
  with True show ?thesis by (simp add: train_parameters_rf [of rf1 config ps1 rf2 ps2])
next
  case False
  assume "stage_parameters rf1 config st = Inr ps1" "stage_parameters rf2 config st = Inr ps2"
  with stage_parameters_other [OF False, of rf1 config rf2] show ?thesis by simp
qed

lemma stage_args_parameters:
  "stage_args env config st = Inr c \<Longrightarrow>
   stage_parameters (abspath env ''rf_config.json'') config st = Inr (parameters c)"
  by (auto simp: stage_args_def run_args_def and_then_Inr_iff)

lemma go_run_args:
  "(st, c) \<in> set (runs_of (fst (go env config))) \<Longrightarrow> stage_args env config st = Inr c"
proof (cases rule: go_cases [of env config])
  case (early e pre)
  assume "(st, c) \<in> set (runs_of (fst (go env config)))"
  with early show ?thesis by simp
next
  case (body p x active)
  assume "(st, c) \<in> set (runs_of (fst (go env config)))"
  with body(4)
  have "(st, c) \<in> set (runs_of (fst (seq_all (map (stage_block env config active) program_order))))"
    by (simp add: stages_eq)
  from seq_all_args [OF this] show ?thesis by simp
qed


text \<open>
  Claim C8, as the code has it. Two executions on configurations with equal entries have
  the same active steps and, when both return without an exception, the same invoked
  stages; the dictionaries they forward to the same stage are equal except for the entry
  \<open>rf_config\<close>, and equal altogether when \<open>os.path.abspath("rf_config.json")\<close> is the same in
  both executions.
\<close>

theorem go_deterministic_up_to_rf_config:
  assumes eq: "\<And>section key. cfg_get config2 section key = cfg_get config1 section key"
  shows "active_steps config2 = active_steps config1 \<and>
         (snd (go env1 config1) = Inr () \<and> snd (go env2 config2) = Inr () \<longrightarrow>
            invoked (fst (go env2 config2)) = invoked (fst (go env1 config1))) \<and>
         (\<forall>st c1 c2.
            (st, c1) \<in> set (runs_of (fst (go env1 config1))) \<and>
            (st, c2) \<in> set (runs_of (fst (go env2 config2))) \<longrightarrow>
            filter (\<lambda>kv. fst kv \<noteq> ''rf_config'') (parameters c2)
              = filter (\<lambda>kv. fst kv \<noteq> ''rf_config'') (parameters c1) \<and>
            (abspath env2 ''rf_config.json'' = abspath env1 ''rf_config.json'' \<longrightarrow>
               parameters c2 = parameters c1))"
proof -
  have a: "active_steps config2 = active_steps config1"
    by (simp add: active_steps_def eq)
  have i: "invoked (fst (go env2 config2)) = invoked (fst (go env1 config1))"
    if ok1: "snd (go env1 config1) = Inr ()" and ok2: "snd (go env2 config2) = Inr ()"
  proof (cases "active_steps config1")
    case (Inl e)
    then have "runs_of (fst (go env1 config1)) = []" "runs_of (fst (go env2 config2)) = []"
      using a by (simp_all add: go_invoked_none)
    then show ?thesis by (simp add: invoked_def)
  next
    case (Inr active)
    then have "active_steps config2 = Inr active" using a by simp
    from go_invoked_complete [OF Inr ok1] go_invoked_complete [OF this ok2]
    show ?thesis by simp
  qed
  have same: "stage_parameters rf config2 st = stage_parameters rf config1 st" for rf st
    by (rule stage_parameters_entries) (simp add: eq split: prod.splits)
  have p: "filter (\<lambda>kv. fst kv \<noteq> ''rf_config'') (parameters c2)
              = filter (\<lambda>kv. fst kv \<noteq> ''rf_config'') (parameters c1) \<and>
            (abspath env2 ''rf_config.json'' = abspath env1 ''rf_config.json'' \<longrightarrow>
               parameters c2 = parameters c1)"
    if r1: "(st, c1) \<in> set (runs_of (fst (go env1 config1)))"
      and r2: "(st, c2) \<in> set (runs_of (fst (go env2 config2)))" for st c1 c2
  proof -
    have p1: "stage_parameters (abspath env1 ''rf_config.json'') config1 st = Inr (parameters c1)"
      using r1 by (intro stage_args_parameters go_run_args)
    have "stage_parameters (abspath env2 ''rf_config.json'') config2 st = Inr (parameters c2)"
      using r2 by (intro stage_args_parameters go_run_args)
    then have p2: "stage_parameters (abspath env2 ''rf_config.json'') config1 st = Inr (parameters c2)"
      by (simp add: same)
    from stage_parameters_rf [OF p2 p1] p1 p2 show ?thesis by auto
  qed
  from a i p show ?thesis by blast
qed

subsection \<open>Files and directories\<close>

lemma seq_all_trace_prefix: "prefix (fst (seq_all as)) (concat (map fst as))"
  by (induction as) (auto simp: fst_seq split: sum.splits)

lemma seq_all_trace_complete:
  "snd (seq_all as) = Inr () \<Longrightarrow>
   fst (seq_all as) = concat (map fst as) \<and> (\<forall>a \<in> set as. snd a = Inr ())"
  by (induction as) (auto simp: fst_seq snd_seq split: sum.splits)

lemma writes_of_prefix: "prefix xs ys \<Longrightarrow> prefix (writes_of xs) (writes_of ys)"
  by (auto simp: prefix_def)

lemma writes_block:
  "writes_of (fst (stage_block env config active st)) =
     (if st = TrainRandomForest \<and> ''train_random_forest'' \<in> set active
      then writes_of (fst (write_rf_config (abspath env ''rf_config.json'') config)) else [])"
  by (cases st) (auto simp: stage_block_eq fst_seq fst_call_mlflow split: sum.splits)

lemma write_rf_config_cases:
  "fst (write_rf_config p config) = [OpenWrite p] \<and> snd (write_rf_config p config) \<noteq> Inr () \<or>
   (\<exists>items. cfg_get config ''modeling'' ''random_forest'' = Inr (Dict items) \<and>
      fst (write_rf_config p config) = [OpenWrite p, JsonDump p items] \<and>
      snd (write_rf_config p config) = Inr ())"
  by (simp add: write_rf_config_def seq_def split: sum.splits cval.splits)

lemma writes_stages_prefix:
  "prefix (writes_of (fst (stages env config active)))
     (if ''train_random_forest'' \<in> set active
      then writes_of (fst (write_rf_config (abspath env ''rf_config.json'') config)) else [])"
proof -
  have "prefix (writes_of (fst (stages env config active)))
          (writes_of (concat (map fst (map (stage_block env config active) program_order))))"
    unfolding stages_eq by (intro writes_of_prefix seq_all_trace_prefix)
  then show ?thesis
    by (simp add: program_order_def writes_block del: stage_block.simps)
qed

lemma writes_stages_complete:
  assumes "snd (stages env config active) = Inr ()"
  shows "if ''train_random_forest'' \<in> set active
         then \<exists>items. cfg_get config ''modeling'' ''random_forest'' = Inr (Dict items) \<and>
                writes_of (fst (stages env config active)) =
                  [OpenWrite (abspath env ''rf_config.json''),
                   JsonDump (abspath env ''rf_config.json'') items]
         else writes_of (fst (stages env config active)) = []"
proof -
  let ?p = "abspath env ''rf_config.json''"
  from seq_all_trace_complete [OF assms [unfolded stages_eq]]
  have tr: "fst (stages env config active) =
              concat (map fst (map (stage_block env config active) program_order))"
    and ok: "snd (stage_block env config active TrainRandomForest) = Inr ()"
    by (simp_all add: stages_eq program_order_def del: stage_block.simps)
  from tr have w: "writes_of (fst (stages env config active)) =
      (if ''train_random_forest'' \<in> set active
       then writes_of (fst (write_rf_config ?p config)) else [])"
    by (simp add: program_order_def writes_block del: stage_block.simps)
  show ?thesis
  proof (cases "''train_random_forest'' \<in> set active")
    case False
    with w show ?thesis by simp
  next
    case True
    with ok have "snd (write_rf_config ?p config) = Inr ()"
      by (simp add: stage_block_eq snd_seq split: sum.splits)
    with write_rf_config_cases [of ?p config]
    obtain items where "cfg_get config ''modeling'' ''random_forest'' = Inr (Dict items)"
      and "fst (write_rf_config ?p config) = [OpenWrite ?p, JsonDump ?p items]"
      by auto
    with True w show ?thesis by simp
  qed
qed

lemma tmp_dirs_setup: "tmp_dirs (fst (stage_setup env config st)) ds = ds"
  using write_rf_config_cases [of "abspath env ''rf_config.json''" config]
  by (cases st) auto

lemma tmp_dirs_block: "tmp_dirs (fst (stage_block env config active st)) ds = ds"
  by (auto simp: stage_block_eq fst_seq fst_call_mlflow tmp_dirs_setup split: sum.splits)

lemma tmp_dirs_seq_all: "tmp_dirs (fst (seq_all (map (stage_block env config active) sts))) ds = ds"
  by (induction sts) (auto simp: fst_seq tmp_dirs_block split: sum.splits)

lemma prefix_one: "prefix xs [a] \<Longrightarrow> xs = [] \<or> xs = [a]"
  by (cases xs) simp_all

lemma prefix_two: "prefix xs [a, b] \<Longrightarrow> xs = [] \<or> xs = [a] \<or> xs = [a, b]"
  by (cases xs) (auto dest: prefix_one)

text \<open>
  The file events of any execution, and what is written when \<open>go\<close> returns normally.
\<close>

lemma go_files:
  "(writes_of (fst (go env config)) = [] \<or>
    writes_of (fst (go env config)) = [OpenWrite (abspath env ''rf_config.json'')] \<or>
    (\<exists>items. cfg_get config ''modeling'' ''random_forest'' = Inr (Dict items) \<and>
       writes_of (fst (go env config)) =
         [OpenWrite (abspath env ''rf_config.json''),
          JsonDump (abspath env ''rf_config.json'') items])) \<and>
   (writes_of (fst (go env config)) \<noteq> [] \<longrightarrow>
      (\<exists>active. active_steps config = Inr active \<and> ''train_random_forest'' \<in> set active)) \<and>
   (\<forall>active. active_steps config = Inr active \<and> snd (go env config) = Inr () \<longrightarrow>
      (if ''train_random_forest'' \<in> set active
       then \<exists>items. cfg_get config ''modeling'' ''random_forest'' = Inr (Dict items) \<and>
              writes_of (fst (go env config)) =
                [OpenWrite (abspath env ''rf_config.json''),
                 JsonDump (abspath env ''rf_config.json'') items]
       else writes_of (fst (go env config)) = [])) \<and>
   tmp_dirs (fst (go env config)) [] = []"
proof (cases rule: go_cases [of env config])
  case (early e pre)
  then show ?thesis by simp
next
  case (body p x active)
  let ?p = "abspath env ''rf_config.json''"
  let ?w = "writes_of (fst (stages env config active))"
  have w: "writes_of (fst (go env config)) = ?w"
    and r: "snd (go env config) = snd (stages env config active)"
    using body(4) by simp_all
  have t: "tmp_dirs (fst (go env config)) [] = []"
    using body(4) by (simp add: stages_eq tmp_dirs_seq_all)
  have pw: "prefix ?w (if ''train_random_forest'' \<in> set active
                        then writes_of (fst (write_rf_config ?p config)) else [])"
    by (rule writes_stages_prefix)
  have only: "?w \<noteq> [] \<Longrightarrow> ''train_random_forest'' \<in> set active"
    using pw by (cases "''train_random_forest'' \<in> set active") simp_all
  have shape: "?w = [] \<or> ?w = [OpenWrite ?p] \<or>
    (\<exists>items. cfg_get config ''modeling'' ''random_forest'' = Inr (Dict items) \<and>
       ?w = [OpenWrite ?p, JsonDump ?p items])"
  proof (cases "''train_random_forest'' \<in> set active")
    case False
    with pw show ?thesis by simp
  next
    case True
    with pw have pw': "prefix ?w (writes_of (fst (write_rf_config ?p config)))" by simp
    from write_rf_config_cases [of ?p config] show ?thesis
    proof
      assume "fst (write_rf_config ?p config) = [OpenWrite ?p] \<and>
              snd (write_rf_config ?p config) \<noteq> Inr ()"
      with pw' have "prefix ?w [OpenWrite ?p]" by simp
      then show ?thesis by (rule prefix_one [THEN disjE]) simp_all
    next
      assume "\<exists>items. cfg_get config ''modeling'' ''random_forest'' = Inr (Dict items) \<and>
                fst (write_rf_config ?p config) = [OpenWrite ?p, JsonDump ?p items] \<and>
                snd (write_rf_config ?p config) = Inr ()"
      then obtain items where c: "cfg_get config ''modeling'' ''random_forest'' = Inr (Dict items)"
        and f: "fst (write_rf_config ?p config) = [OpenWrite ?p, JsonDump ?p items]"
        by blast
      from pw' f have "prefix ?w [OpenWrite ?p, JsonDump ?p items]" by simp
      from prefix_two [OF this] c show ?thesis by blast
    qed
  qed
  have fin: "snd (stages env config active) = Inr () \<Longrightarrow>
      (if ''train_random_forest'' \<in> set active
       then \<exists>items. cfg_get config ''modeling'' ''random_forest'' = Inr (Dict items) \<and>
              ?w = [OpenWrite ?p, JsonDump ?p items]
       else ?w = [])"
    by (rule writes_stages_complete)
  have a: "active_steps config = Inr active' \<Longrightarrow> active' = active" for active'
    using body(3) by simp
  show ?thesis
    unfolding w r
  proof (intro conjI allI impI)
    show "?w = [] \<or> ?w = [OpenWrite ?p] \<or>
      (\<exists>items. cfg_get config ''modeling'' ''random_forest'' = Inr (Dict items) \<and>
         ?w = [OpenWrite ?p, JsonDump ?p items])"
      by (rule shape)
    show "\<exists>active. active_steps config = Inr active \<and> ''train_random_forest'' \<in> set active"
      if "?w \<noteq> []"
      using only [OF that] body(3) by blast
    show "if ''train_random_forest'' \<in> set active'
       then \<exists>items. cfg_get config ''modeling'' ''random_forest'' = Inr (Dict items) \<and>
              ?w = [OpenWrite ?p, JsonDump ?p items]
       else ?w = []"
      if "active_steps config = Inr active' \<and> snd (stages env config active) = Inr ()" for active'
      using fin a [of active'] that by simp
    show "tmp_dirs (fst (go env config)) [] = []" by (rule t)
  qed
qed

subsection \<open>Elements that are not stage names\<close>

lemma stage_name_recognized: "stage_name st \<in> set stage_names"
  by (cases st) (simp_all add: stage_names_def program_order_def)

lemma recognized_empty:
  assumes "recognized active = []"
  shows "stage_name st \<notin> set active"
proof -
  from assms have "\<forall>n \<in> set stage_names. n \<notin> set active"
    by (simp add: recognized_def filter_empty_conv)
  with stage_name_recognized show ?thesis by blast
qed

lemma stages_none:
  assumes "recognized active = []"
  shows "stages env config active = skip"
proof -
  have "stage_block env config active st = skip" for st
    by (rule block_inactive) (rule recognized_empty [OF assms])
  then show ?thesis
    by (simp add: stages_eq program_order_def del: stage_block.simps)
qed

text \<open>
  Claim C9. When \<open>main.steps\<close> is a string other than \<open>"all"\<close>: every invoked stage has a
  name that is an element of the split; a configuration that differs only in
  \<open>main.steps\<close> and has the same recognized names among its elements behaves exactly the
  same, so elements that are not stage names add neither a call nor an exception; when
  no element is a stage name, no stage is invoked and, the two names for the environment
  being strings, \<open>go\<close> returns normally after creating and removing the temporary
  directory; in particular the empty string invokes no stage.
\<close>

theorem unrecognized_step_names_are_ignored:
  assumes "cfg_get config ''main'' ''steps'' = Inr (Str s)" and "s \<noteq> ''all''"
  shows "(\<forall>st \<in> set (invoked (fst (go env config))). stage_name st \<in> set (py_split CHR '','' s)) \<and>
         (\<forall>config' s'.
            (\<forall>section key. (section, key) \<noteq> (''main'', ''steps'') \<longrightarrow>
               cfg_get config' section key = cfg_get config section key) \<and>
            cfg_get config' ''main'' ''steps'' = Inr (Str s') \<and> s' \<noteq> ''all'' \<and>
            recognized (py_split CHR '','' s') = recognized (py_split CHR '','' s) \<longrightarrow>
            go env config' = go env config) \<and>
         (recognized (py_split CHR '','' s) = [] \<longrightarrow>
            invoked (fst (go env config)) = [] \<and>
            (\<forall>p x. cfg_get config ''main'' ''project_name'' = Inr (Str p) \<and>
                   cfg_get config ''main'' ''experiment_name'' = Inr (Str x) \<longrightarrow>
               go env config =
                 ([SetEnv ''WANDB_PROJECT'' p, SetEnv ''WANDB_RUN_GROUP'' x,
                   MkTmpDir (mkdtemp env), RmTmpDir (mkdtemp env)], Inr ()))) \<and>
         (s = '''' \<longrightarrow> invoked (fst (go env config)) = [])"
proof -
  let ?a = "py_split CHR '','' s"
  have act: "active_steps config = Inr ?a"
    using assms by (rule active_steps_not_all)
  have pre: "prefix (invoked (fst (go env config)))
               (filter (\<lambda>st. stage_name st \<in> set ?a) program_order)"
    using act by (rule go_invoked_prefix)
  have one: "\<forall>st \<in> set (invoked (fst (go env config))). stage_name st \<in> set ?a"
    using set_mono_prefix [OF pre] by auto
  have two: "go env config' = go env config"
    if "(\<forall>section key. (section, key) \<noteq> (''main'', ''steps'') \<longrightarrow>
               cfg_get config' section key = cfg_get config section key) \<and>
            cfg_get config' ''main'' ''steps'' = Inr (Str s') \<and> s' \<noteq> ''all'' \<and>
            recognized (py_split CHR '','' s') = recognized ?a" for config' s'
  proof (rule go_cong [OF _ act])
    show "active_steps config' = Inr (py_split CHR '','' s')"
      using that by (intro active_steps_not_all) simp_all
  qed (use that in simp_all)
  have none: "invoked (fst (go env config)) = []" if "recognized ?a = []"
  proof -
    have "filter (\<lambda>st. stage_name st \<in> set ?a) program_order = []"
      using recognized_empty [OF that] by (simp add: filter_empty_conv)
    with pre show ?thesis by simp
  qed
  have three: "go env config =
                 ([SetEnv ''WANDB_PROJECT'' p, SetEnv ''WANDB_RUN_GROUP'' x,
                   MkTmpDir (mkdtemp env), RmTmpDir (mkdtemp env)], Inr ())"
    if "recognized ?a = []" and "cfg_get config ''main'' ''project_name'' = Inr (Str p) \<and>
                   cfg_get config ''main'' ''experiment_name'' = Inr (Str x)" for p x
    using that act
    by (simp add: go_def setenv_def seq_def pure_def with_tmpdir_def stages_none skip_def)
  have four: "recognized ?a = []" if "s = ''''"
    using that by (simp add: recognized_def stage_names_def program_order_def)
  from one two none three four show ?thesis by blast
qed

subsection \<open>Which stages are called\<close>

text \<open>
  The conditions under which a block reaches its call and returns, in terms of the
  configuration and of the runs, and from them the stages \<open>go\<close> invokes and the file it
  writes, without an assumption on the result of \<open>go\<close>.
\<close>

lemma ok_and_then: "(\<exists>y. and_then m f = Inr y) \<longleftrightarrow> (\<exists>x. m = Inr x \<and> (\<exists>y. f x = Inr y))"
  by (cases m) (simp_all add: and_then_def)

lemma has_entry_iff: "has_entry config section key \<longleftrightarrow> (\<exists>v. cfg_get config section key = Inr v)"
  by (simp add: has_entry_def split: sum.splits)

lemma has_string_iff: "has_string config section key \<longleftrightarrow> (\<exists>s. cfg_get config section key = Inr (Str s))"
  by (simp add: has_string_def split: sum.splits cval.splits)

lemma add_literal_ok: "(\<exists>y. add_literal v lit = Inr y) \<longleftrightarrow> (\<exists>s. v = Str s)"
  by (cases v) simp_all

lemma add_value_ok: "(\<exists>y. add_value s v = Inr y) \<longleftrightarrow> (\<exists>t. v = Str t)"
  by (cases v) simp_all

lemma artifact_ref_ok:
  "(\<exists>v. artifact_ref config section key tag = Inr v) \<longleftrightarrow> has_artifact config section key tag"
proof -
  have "(\<exists>v. artifact_ref config section key tag = Inr v) \<longleftrightarrow>
        (\<exists>p. cfg_get config ''main'' ''project_name'' = Inr (Str p)) \<and>
        (\<exists>n. cfg_get config section key = Inr (Str n)) \<and>
        (\<exists>t. cfg_get config ''main'' tag = Inr (Str t))"
    unfolding artifact_ref_def
    by (cases "cfg_get config ''main'' ''project_name''"; cases "cfg_get config section key";
        cases "cfg_get config ''main'' tag")
       (auto simp: and_then_def split: sum.splits cval.splits elim!: add_literal.elims add_value.elims)
  then show ?thesis by (simp add: has_artifact_def has_string_iff)
qed

lemma has_entryI: "cfg_get config section key = Inr v \<Longrightarrow> has_entry config section key"
  by (simp add: has_entry_iff)

lemma parameters_ok:
  "(\<exists>ps. download_parameters config = Inr ps) \<longleftrightarrow> has_entry config ''etl'' ''sample''"
  "(\<exists>ps. basic_cleaning_parameters config = Inr ps) \<longleftrightarrow>
     has_artifact config ''basic_cleaning'' ''input_artifact'' ''latest_tag'' \<and>
     has_entry config ''basic_cleaning'' ''output_artifact'' \<and>
     has_entry config ''etl'' ''min_price'' \<and> has_entry config ''etl'' ''max_price''"
  "(\<exists>ps. data_check_parameters config = Inr ps) \<longleftrightarrow>
     has_artifact config ''basic_cleaning'' ''output_artifact'' ''latest_tag'' \<and>
     has_artifact config ''basic_cleaning'' ''output_artifact'' ''reference_tag'' \<and>
     has_entry config ''data_check'' ''kl_threshold'' \<and>
     has_entry config ''etl'' ''min_price'' \<and> has_entry config ''etl'' ''max_price''"
  "(\<exists>ps. data_split_parameters config = Inr ps) \<longleftrightarrow>
     has_artifact config ''basic_cleaning'' ''output_artifact'' ''latest_tag'' \<and>
     has_entry config ''modeling'' ''test_size'' \<and> has_entry config ''modeling'' ''random_seed'' \<and>
     has_entry config ''modeling'' ''stratify_by''"
  "(\<exists>ps. train_random_forest_parameters rf config = Inr ps) \<longleftrightarrow>
     has_artifact config ''modeling'' ''trainval_artifact'' ''latest_tag'' \<and>
     has_entry config ''modeling'' ''val_size'' \<and> has_entry config ''modeling'' ''random_seed'' \<and>
     has_entry config ''modeling'' ''stratify_by'' \<and>
     has_entry config ''modeling'' ''max_tfidf_features'' \<and>
     has_entry config ''modeling'' ''output_artifact''"
  "(\<exists>ps. test_regression_model_parameters config = Inr ps) \<longleftrightarrow>
     has_artifact config ''modeling'' ''output_artifact'' ''prod_tag'' \<and>
     has_artifact config ''modeling'' ''test_artifact'' ''latest_tag''"
  by (simp_all add: parameters_defs ok_and_then artifact_ref_ok has_entry_iff)

lemma component_uri_ok:
  "(\<exists>u. component_uri env config component = Inr u) \<longleftrightarrow>
   has_entry config ''main'' ''components_repository''"
  by (simp add: component_uri_def ok_and_then has_entry_iff)

lemma local_uri_ok: "\<exists>u. local_uri env component = Inr u"
  by (simp add: local_uri_def)

lemma run_args_ok:
  "(\<exists>c. run_args u v ps = Inr c) \<longleftrightarrow> (\<exists>u'. u = Inr u') \<and> (\<exists>ps'. ps = Inr ps')"
  by (cases u; cases ps) (simp_all add: run_args_def and_then_def)

lemma write_rf_config_ok:
  "snd (write_rf_config p config) = Inr () \<longleftrightarrow> rf_items config \<noteq> None"
  by (simp add: write_rf_config_def seq_def rf_items_def split: sum.splits cval.splits)

lemma stage_ready_iff:
  "stage_ready config st \<longleftrightarrow>
     snd (stage_setup env config st) = Inr () \<and> (\<exists>c. stage_args env config st = Inr c)"
  by (cases st)
     (simp_all add: stage_args_def run_args_ok parameters_ok component_uri_ok local_uri_ok
        write_rf_config_ok)

lemma block_snd:
  "stage_name st \<in> set active \<Longrightarrow>
   snd (stage_block env config active st) = Inr () \<longleftrightarrow> stage_returns env config st"
  by (auto simp: stage_block_eq snd_seq snd_call_mlflow stage_returns_def
        stage_ready_iff [of config st env] split: sum.splits option.splits)

lemma block_invoked:
  "stage_name st \<in> set active \<Longrightarrow>
   invoked (fst (stage_block env config active st)) = (if stage_ready config st then [st] else [])"
  by (auto simp: stage_block_eq fst_seq fst_call_mlflow invoked_def
        stage_ready_iff [of config st env] split: sum.splits)

lemma returns_ready: "stage_returns env config st \<Longrightarrow> stage_ready config st"
  by (simp add: stage_returns_def)

lemma seq_all_invoked:
  "invoked (fst (seq_all (map (stage_block env config active) sts))) =
     called_stages (stage_ready config) (stage_returns env config)
       (filter (\<lambda>st. stage_name st \<in> set active) sts)"
proof (induction sts)
  case Nil
  show ?case by simp
next
  case (Cons s sts)
  show ?case
  proof (cases "stage_name s \<in> set active")
    case False
    with Cons.IH show ?thesis by (simp add: block_inactive)
  next
    case True
    show ?thesis
    proof (cases "stage_returns env config s")
      case r: True
      then have "snd (stage_block env config active s) = Inr ()"
        using block_snd [OF True, of env config] by simp
      with True r Cons.IH show ?thesis
        by (simp add: fst_seq block_invoked returns_ready)
    next
      case r: False
      then have "snd (stage_block env config active s) \<noteq> Inr ()"
        using block_snd [OF True, of env config] by simp
      then obtain e where "snd (stage_block env config active s) = Inl e"
        by (cases "snd (stage_block env config active s)") auto
      with True r show ?thesis
        by (simp add: fst_seq block_invoked)
    qed
  qed
qed

lemma seq_all_returns:
  "snd (seq_all (map (stage_block env config active) sts)) = Inr () \<longleftrightarrow>
   list_all (stage_returns env config) (filter (\<lambda>st. stage_name st \<in> set active) sts)"
proof (induction sts)
  case Nil
  show ?case by simp
next
  case (Cons s sts)
  show ?case
  proof (cases "stage_name s \<in> set active")
    case False
    with Cons.IH show ?thesis by (simp add: block_inactive)
  next
    case True
    from block_snd [OF True, of env config] Cons.IH True show ?thesis
      by (cases "snd (stage_block env config active s)") (auto simp: snd_seq)
  qed
qed

lemma names_ok_iff:
  "names_ok config \<longleftrightarrow>
     (\<exists>p. cfg_get config ''main'' ''project_name'' = Inr (Str p)) \<and>
     (\<exists>x. cfg_get config ''main'' ''experiment_name'' = Inr (Str x))"
  by (simp add: names_ok_def has_string_iff)

lemma go_body:
  assumes "names_ok config" and "active_steps config = Inr active"
  shows "\<exists>p x. go env config =
           (SetEnv ''WANDB_PROJECT'' p # SetEnv ''WANDB_RUN_GROUP'' x # MkTmpDir (mkdtemp env) #
              fst (stages env config active) @ [RmTmpDir (mkdtemp env)],
            snd (stages env config active))"
proof -
  from assms(1) obtain p x where "cfg_get config ''main'' ''project_name'' = Inr (Str p)"
    and "cfg_get config ''main'' ''experiment_name'' = Inr (Str x)"
    by (auto simp: names_ok_iff)
  with assms(2) show ?thesis
    by (simp add: go_def setenv_def seq_def pure_def with_tmpdir_def split: prod.splits)
qed

lemma go_invoked_exact:
  assumes "names_ok config" and "active_steps config = Inr active"
  shows "invoked (fst (go env config)) =
           called_stages (stage_ready config) (stage_returns env config)
             (filter (\<lambda>st. stage_name st \<in> set active) program_order)"
proof -
  from go_body [OF assms, of env] obtain p x where
    "go env config =
           (SetEnv ''WANDB_PROJECT'' p # SetEnv ''WANDB_RUN_GROUP'' x # MkTmpDir (mkdtemp env) #
              fst (stages env config active) @ [RmTmpDir (mkdtemp env)],
            snd (stages env config active))"
    by blast
  then show ?thesis
    by (simp add: invoked_def stages_eq seq_all_invoked [unfolded invoked_def])
qed

lemma go_without_names:
  assumes "\<not> names_ok config"
  shows "(\<exists>e. snd (go env config) = Inl e) \<and> runs_of (fst (go env config)) = [] \<and>
         writes_of (fst (go env config)) = []"
proof (cases rule: go_cases [of env config])
  case (early e pre)
  then show ?thesis by simp
next
  case (body p x active)
  then have "names_ok config" by (simp add: names_ok_iff)
  with assms show ?thesis by simp
qed

lemma go_returns_iff:
  assumes "active_steps config = Inr active"
  shows "snd (go env config) = Inr () \<longleftrightarrow>
         names_ok config \<and>
         list_all (stage_returns env config)
           (filter (\<lambda>st. stage_name st \<in> set active) program_order)"
proof (cases "names_ok config")
  case False
  with go_without_names [OF False, of env] show ?thesis by auto
next
  case True
  from go_body [OF True assms, of env] have "snd (go env config) = snd (stages env config active)"
    by auto
  with True show ?thesis by (simp add: stages_eq seq_all_returns)
qed

lemma called_all:
  "list_all returns xs \<Longrightarrow> called_stages ready returns xs = xs"
  by (induction xs) simp_all

lemma called_all_but_last:
  "list_all returns xs \<Longrightarrow> ready x \<Longrightarrow> called_stages ready returns (xs @ [x]) = xs @ [x]"
  by (induction xs) simp_all

lemma in_called_iff:
  assumes "\<And>x. returns x \<Longrightarrow> ready x"
  shows "st \<in> set (called_stages ready returns xs) \<longleftrightarrow>
           st \<in> set xs \<and> ready st \<and> list_all returns (takeWhile (\<lambda>x. x \<noteq> st) xs)"
  using assms by (induction xs) auto

lemma takeWhile_filter:
  "Q st \<Longrightarrow> takeWhile (\<lambda>x. x \<noteq> st) (filter Q xs) = filter Q (takeWhile (\<lambda>x. x \<noteq> st) xs)"
  by (induction xs) auto

lemma earlier_simps:
  "earlier Download = []"
  "earlier BasicCleaning = [Download]"
  "earlier DataCheck = [Download, BasicCleaning]"
  "earlier DataSplit = [Download, BasicCleaning, DataCheck]"
  "earlier TrainRandomForest = [Download, BasicCleaning, DataCheck, DataSplit]"
  "earlier TestRegressionModel = [Download, BasicCleaning, DataCheck, DataSplit, TrainRandomForest]"
  by (simp_all add: earlier_def program_order_def)

lemma recognized_set:
  "stage_name ` set (filter (\<lambda>st. stage_name st \<in> set active) program_order)
     = {n \<in> set stage_names. n \<in> set active}"
  by (auto simp: stage_names_def)

text \<open>
  Claim C1, as the code has it. When \<open>main.steps\<close> is a string other than \<open>"all"\<close>, every
  stage that \<open>go\<close> invokes is a recognized stage name that occurs among the comma-separated
  elements of that string. When the two names for the environment are strings, \<open>go\<close>
  invokes the listed stages in program order up to and including the first whose run
  raises, and stops before a stage that is not ready; so when every listed stage is ready
  and every run returns, the stages invoked are exactly the recognized names in the
  split.
\<close>

theorem go_invokes_listed_stages:
  assumes "cfg_get config ''main'' ''steps'' = Inr (Str s)" and "s \<noteq> ''all''"
  shows "stage_name ` set (invoked (fst (go env config)))
           \<subseteq> {n \<in> set stage_names. n \<in> set (py_split CHR '','' s)} \<and>
         (names_ok config \<longrightarrow>
            invoked (fst (go env config)) =
              called_stages (stage_ready config) (stage_returns env config)
                (filter (\<lambda>st. stage_name st \<in> set (py_split CHR '','' s)) program_order)) \<and>
         (names_ok config \<and>
          list_all (stage_returns env config)
            (filter (\<lambda>st. stage_name st \<in> set (py_split CHR '','' s)) program_order) \<longrightarrow>
            stage_name ` set (invoked (fst (go env config)))
              = {n \<in> set stage_names. n \<in> set (py_split CHR '','' s)})"
proof -
  let ?a = "py_split CHR '','' s"
  let ?sel = "filter (\<lambda>st. stage_name st \<in> set ?a) program_order"
  have act: "active_steps config = Inr ?a"
    using assms by (rule active_steps_not_all)
  from go_invoked_prefix [OF act, of env]
  have "set (invoked (fst (go env config))) \<subseteq> set ?sel"
    by (rule set_mono_prefix)
  then have sub: "stage_name ` set (invoked (fst (go env config)))
       \<subseteq> {n \<in> set stage_names. n \<in> set ?a}"
    unfolding recognized_set [symmetric] by (rule image_mono)
  have ex: "invoked (fst (go env config)) =
              called_stages (stage_ready config) (stage_returns env config) ?sel"
    if "names_ok config"
    using that act by (rule go_invoked_exact)
  have eq: "stage_name ` set (invoked (fst (go env config))) = {n \<in> set stage_names. n \<in> set ?a}"
    if "names_ok config \<and> list_all (stage_returns env config) ?sel"
  proof -
    from that ex called_all [of "stage_returns env config" ?sel "stage_ready config"]
    have i: "invoked (fst (go env config)) = ?sel" by simp
    show ?thesis unfolding i by (rule recognized_set)
  qed
  from sub ex eq show ?thesis by blast
qed

text \<open>
  Claim C2, as the code has it. When \<open>main.steps\<close> is \<open>"all"\<close>, the invoked stages are a
  prefix of the five stages of \<open>_steps\<close> in program order, and \<open>test_regression_model\<close>,
  which \<open>_steps\<close> leaves out on purpose, is never invoked. When the two names for the
  environment are strings, \<open>go\<close> walks the five stages as \<open>called_stages\<close> does; it invokes
  all five when the first four return and the training stage is ready.
\<close>

theorem all_runs_five_stages:
  assumes "cfg_get config ''main'' ''steps'' = Inr (Str ''all'')"
  shows "prefix (invoked (fst (go env config)))
           [Download, BasicCleaning, DataCheck, DataSplit, TrainRandomForest] \<and>
         TestRegressionModel \<notin> set (invoked (fst (go env config))) \<and>
         (names_ok config \<longrightarrow>
            invoked (fst (go env config)) =
              called_stages (stage_ready config) (stage_returns env config)
                [Download, BasicCleaning, DataCheck, DataSplit, TrainRandomForest]) \<and>
         (names_ok config \<and>
          list_all (stage_returns env config) [Download, BasicCleaning, DataCheck, DataSplit] \<and>
          stage_ready config TrainRandomForest \<longrightarrow>
            invoked (fst (go env config)) =
              [Download, BasicCleaning, DataCheck, DataSplit, TrainRandomForest])"
proof -
  let ?five = "[Download, BasicCleaning, DataCheck, DataSplit, TrainRandomForest]"
  have act: "active_steps config = Inr steps"
    using assms by (rule active_steps_all)
  have sel: "filter (\<lambda>st. stage_name st \<in> set steps) program_order = ?five"
    by (simp add: steps_def program_order_def)
  from go_invoked_prefix [OF act, of env]
  have pre: "prefix (invoked (fst (go env config))) ?five"
    by (simp add: sel)
  from set_mono_prefix [OF pre]
  have no: "TestRegressionModel \<notin> set (invoked (fst (go env config)))" by auto
  have ex: "invoked (fst (go env config)) =
              called_stages (stage_ready config) (stage_returns env config) ?five"
    if "names_ok config"
    using go_invoked_exact [OF that act, of env] by (simp add: sel)
  have al: "invoked (fst (go env config)) = ?five"
    if "names_ok config \<and>
        list_all (stage_returns env config) [Download, BasicCleaning, DataCheck, DataSplit] \<and>
        stage_ready config TrainRandomForest"
    using that ex
      called_all_but_last [of "stage_returns env config"
        "[Download, BasicCleaning, DataCheck, DataSplit]" "stage_ready config" TrainRandomForest]
    by simp
  from pre no ex al show ?thesis by blast
qed

text \<open>
  Claim C10, as the code has it. A stage is invoked only if its exact name is in the list
  of active steps. When the two names for the environment are strings, a stage is invoked
  if and only if its name is in that list, it is ready, and every earlier stage that is
  itself active returns: an earlier stage that is not selected is not required. Without
  the two names nothing is invoked.
\<close>

theorem go_invokes_iff_active:
  assumes "active_steps config = Inr active"
  shows "(st \<in> set (invoked (fst (go env config))) \<longrightarrow> stage_name st \<in> set active) \<and>
         (names_ok config \<longrightarrow>
            (st \<in> set (invoked (fst (go env config))) \<longleftrightarrow>
               stage_name st \<in> set active \<and> stage_ready config st \<and>
               list_all (stage_returns env config)
                 (filter (\<lambda>x. stage_name x \<in> set active) (earlier st)))) \<and>
         (\<not> names_ok config \<longrightarrow> st \<notin> set (invoked (fst (go env config))))"
proof -
  let ?Q = "\<lambda>x. stage_name x \<in> set active"
  have all: "st \<in> set program_order"
    by (cases st) (simp_all add: program_order_def)
  from set_mono_prefix [OF go_invoked_prefix [OF assms, of env]]
  have one: "st \<in> set (invoked (fst (go env config))) \<Longrightarrow> stage_name st \<in> set active"
    by auto
  have two: "st \<in> set (invoked (fst (go env config))) \<longleftrightarrow>
               stage_name st \<in> set active \<and> stage_ready config st \<and>
               list_all (stage_returns env config) (filter ?Q (earlier st))"
    if n: "names_ok config"
  proof (cases "stage_name st \<in> set active")
    case False
    with one show ?thesis by blast
  next
    case True
    have "st \<in> set (invoked (fst (go env config))) \<longleftrightarrow>
            st \<in> set (filter ?Q program_order) \<and> stage_ready config st \<and>
            list_all (stage_returns env config)
              (takeWhile (\<lambda>x. x \<noteq> st) (filter ?Q program_order))"
      unfolding go_invoked_exact [OF n assms]
      by (rule in_called_iff) (rule returns_ready)
    also have "takeWhile (\<lambda>x. x \<noteq> st) (filter ?Q program_order) = filter ?Q (earlier st)"
      unfolding earlier_def using True by (rule takeWhile_filter)
    finally show ?thesis using True all by simp
  qed
  have three: "st \<notin> set (invoked (fst (go env config)))" if "\<not> names_ok config"
    using go_without_names [OF that, of env] by (simp add: invoked_def)
  from one two three show ?thesis by blast
qed

lemma writes_before_training:
  "TrainRandomForest \<notin> set xs \<Longrightarrow>
   writes_of (fst (seq_all (map (stage_block env config active) (xs @ ys)))) =
     (if list_all (stage_returns env config) (filter (\<lambda>st. stage_name st \<in> set active) xs)
      then writes_of (fst (seq_all (map (stage_block env config active) ys))) else [])"
proof (induction xs)
  case Nil
  show ?case by simp
next
  case (Cons x xs)
  then have x: "x \<noteq> TrainRandomForest" and xs: "TrainRandomForest \<notin> set xs" by auto
  have w: "writes_of (fst (stage_block env config active x)) = []"
    using x by (simp add: writes_block)
  show ?case
  proof (cases "stage_name x \<in> set active")
    case False
    with Cons.IH [OF xs] show ?thesis by (simp add: block_inactive)
  next
    case True
    from block_snd [OF True, of env config] Cons.IH [OF xs] True w show ?thesis
      by (cases "snd (stage_block env config active x)") (auto simp: fst_seq)
  qed
qed

lemma writes_rf_config:
  "writes_of (fst (write_rf_config p config)) =
     OpenWrite p # (case rf_items config of Some items \<Rightarrow> [JsonDump p items] | None \<Rightarrow> [])"
  by (simp add: write_rf_config_def seq_def rf_items_def split: sum.splits cval.splits)

lemma writes_stages_exact:
  "writes_of (fst (stages env config active)) =
     (if ''train_random_forest'' \<in> set active \<and>
         list_all (stage_returns env config)
           (filter (\<lambda>st. stage_name st \<in> set active) (earlier TrainRandomForest))
      then OpenWrite (abspath env ''rf_config.json'') #
             (case rf_items config of
                Some items \<Rightarrow> [JsonDump (abspath env ''rf_config.json'') items]
              | None \<Rightarrow> [])
      else [])"
proof -
  have po: "program_order = earlier TrainRandomForest @ [TrainRandomForest, TestRegressionModel]"
    by (simp add: earlier_simps program_order_def)
  have no: "TrainRandomForest \<notin> set (earlier TrainRandomForest)"
    by (simp add: earlier_simps)
  have last2: "writes_of (fst (seq_all (map (stage_block env config active)
                  [TrainRandomForest, TestRegressionModel]))) =
               (if ''train_random_forest'' \<in> set active
                then writes_of (fst (write_rf_config (abspath env ''rf_config.json'') config))
                else [])"
    using writes_block [of env config active TrainRandomForest]
      writes_block [of env config active TestRegressionModel]
    by (simp add: fst_seq del: stage_block.simps split: sum.splits)
  have "writes_of (fst (stages env config active)) =
          writes_of (fst (seq_all (map (stage_block env config active)
             (earlier TrainRandomForest @ [TrainRandomForest, TestRegressionModel]))))"
    by (simp only: stages_eq po [symmetric])
  also have "\<dots> =
     (if list_all (stage_returns env config)
           (filter (\<lambda>st. stage_name st \<in> set active) (earlier TrainRandomForest))
      then writes_of (fst (seq_all (map (stage_block env config active)
                  [TrainRandomForest, TestRegressionModel]))) else [])"
    by (rule writes_before_training [OF no])
  finally show ?thesis
    by (simp only: last2 writes_rf_config) auto
qed

text \<open>
  Claim C5, as the code has it. The file writes of \<open>go\<close> are at most the opening of
  \<open>os.path.abspath("rf_config.json")\<close> followed by the dump of the items of
  \<open>modeling.random_forest\<close> into it, and a write happens only if \<open>train_random_forest\<close> is
  active. When the two names for the environment are strings, the file is opened if and
  only if that stage is active and every active stage before it returns, and the dump
  follows if and only if \<open>modeling.random_forest\<close> is a mapping without nested mappings;
  without the two names nothing is written. The temporary directory that \<open>go\<close> creates is
  removed again, so no directory of the script is left behind.
\<close>

theorem go_writes_only_rf_config:
  "(writes_of (fst (go env config)) = [] \<or>
    writes_of (fst (go env config)) = [OpenWrite (abspath env ''rf_config.json'')] \<or>
    (\<exists>items. cfg_get config ''modeling'' ''random_forest'' = Inr (Dict items) \<and>
       writes_of (fst (go env config)) =
         [OpenWrite (abspath env ''rf_config.json''),
          JsonDump (abspath env ''rf_config.json'') items])) \<and>
   (writes_of (fst (go env config)) \<noteq> [] \<longrightarrow>
      (\<exists>active. active_steps config = Inr active \<and> ''train_random_forest'' \<in> set active)) \<and>
   (\<forall>active. names_ok config \<and> active_steps config = Inr active \<longrightarrow>
      writes_of (fst (go env config)) =
        (if ''train_random_forest'' \<in> set active \<and>
            list_all (stage_returns env config)
              (filter (\<lambda>st. stage_name st \<in> set active) (earlier TrainRandomForest))
         then OpenWrite (abspath env ''rf_config.json'') #
                (case rf_items config of
                   Some items \<Rightarrow> [JsonDump (abspath env ''rf_config.json'') items]
                 | None \<Rightarrow> [])
         else [])) \<and>
   (\<not> names_ok config \<longrightarrow> writes_of (fst (go env config)) = []) \<and>
   tmp_dirs (fst (go env config)) [] = []"
proof -
  let ?p = "abspath env ''rf_config.json''"
  let ?w = "writes_of (fst (go env config))"
  have shape: "?w = [] \<or> ?w = [OpenWrite ?p] \<or>
    (\<exists>items. cfg_get config ''modeling'' ''random_forest'' = Inr (Dict items) \<and>
       ?w = [OpenWrite ?p, JsonDump ?p items])"
    and only: "?w \<noteq> [] \<longrightarrow>
      (\<exists>active. active_steps config = Inr active \<and> ''train_random_forest'' \<in> set active)"
    and tmp: "tmp_dirs (fst (go env config)) [] = []"
    using go_files [of env config] by blast+
  have exact: "?w =
        (if ''train_random_forest'' \<in> set active \<and>
            list_all (stage_returns env config)
              (filter (\<lambda>st. stage_name st \<in> set active) (earlier TrainRandomForest))
         then OpenWrite ?p # (case rf_items config of
                   Some items \<Rightarrow> [JsonDump ?p items] | None \<Rightarrow> [])
         else [])"
    if "names_ok config \<and> active_steps config = Inr active" for active
  proof -
    from that go_body [of config active env]
    have "?w = writes_of (fst (stages env config active))" by auto
    then show ?thesis by (simp only: writes_stages_exact)
  qed
  have none: "?w = []" if "\<not> names_ok config"
    using go_without_names [OF that, of env] by simp
  from shape only exact none tmp show ?thesis by blast
qed

section \<open>Concrete executions\<close>

lemmas example_defs =
  example_env_def example_config_def moved_env_def failing_env_def example_download_call_def
  example_basic_cleaning_call_def example_data_check_call_def example_data_split_call_def
  example_train_call_def example_rf_items_def

text \<open>
  \<open>go\<close> evaluated on the examples: the whole trace and the result of each execution.
\<close>

lemma go_example_all:
  "go example_env (example_config ''all'') =
     ([SetEnv ''WANDB_PROJECT'' ''nyc_airbnb'', SetEnv ''WANDB_RUN_GROUP'' ''development'',
       MkTmpDir ''/tmp/tmp0'',
       Run Download example_download_call,
       Run BasicCleaning example_basic_cleaning_call,
       Run DataCheck example_data_check_call,
       Run DataSplit example_data_split_call,
       OpenWrite ''/run/a/rf_config.json'',
       JsonDump ''/run/a/rf_config.json'' example_rf_items,
       Run TrainRandomForest (example_train_call ''/run/a/rf_config.json''),
       RmTmpDir ''/tmp/tmp0''],
      Inr ())"
  by (simp add: model_defs example_defs)

lemma go_example_listed:
  "go example_env (example_config ''download,,All, data_check,train_random_forest,download'') =
     ([SetEnv ''WANDB_PROJECT'' ''nyc_airbnb'', SetEnv ''WANDB_RUN_GROUP'' ''development'',
       MkTmpDir ''/tmp/tmp0'',
       Run Download example_download_call,
       OpenWrite ''/run/a/rf_config.json'',
       JsonDump ''/run/a/rf_config.json'' example_rf_items,
       Run TrainRandomForest (example_train_call ''/run/a/rf_config.json''),
       RmTmpDir ''/tmp/tmp0''],
      Inr ())"
  by (simp add: model_defs example_defs)

lemma go_example_train:
  "go example_env (example_config ''train_random_forest'') =
     ([SetEnv ''WANDB_PROJECT'' ''nyc_airbnb'', SetEnv ''WANDB_RUN_GROUP'' ''development'',
       MkTmpDir ''/tmp/tmp0'',
       OpenWrite ''/run/a/rf_config.json'',
       JsonDump ''/run/a/rf_config.json'' example_rf_items,
       Run TrainRandomForest (example_train_call ''/run/a/rf_config.json''),
       RmTmpDir ''/tmp/tmp0''],
      Inr ())"
  by (simp add: model_defs example_defs)

lemma go_moved_train:
  "go moved_env (example_config ''train_random_forest'') =
     ([SetEnv ''WANDB_PROJECT'' ''nyc_airbnb'', SetEnv ''WANDB_RUN_GROUP'' ''development'',
       MkTmpDir ''/tmp/tmp0'',
       OpenWrite ''/run/b/rf_config.json'',
       JsonDump ''/run/b/rf_config.json'' example_rf_items,
       Run TrainRandomForest (example_train_call ''/run/b/rf_config.json''),
       RmTmpDir ''/tmp/tmp0''],
      Inr ())"
  by (simp add: model_defs example_defs)

lemma go_example_download:
  "go example_env (example_config ''download'') =
     ([SetEnv ''WANDB_PROJECT'' ''nyc_airbnb'', SetEnv ''WANDB_RUN_GROUP'' ''development'',
       MkTmpDir ''/tmp/tmp0'',
       Run Download example_download_call,
       RmTmpDir ''/tmp/tmp0''],
      Inr ())"
  by (simp add: model_defs example_defs)

lemma go_failing_all:
  "go failing_env (example_config ''all'') =
     ([SetEnv ''WANDB_PROJECT'' ''nyc_airbnb'', SetEnv ''WANDB_RUN_GROUP'' ''development'',
       MkTmpDir ''/tmp/tmp0'',
       Run Download example_download_call,
       Run BasicCleaning example_basic_cleaning_call,
       RmTmpDir ''/tmp/tmp0''],
      Inl ExecutionException)"
  by (simp add: model_defs example_defs)

lemma example_steps: "cfg_get (example_config s) ''main'' ''steps'' = Inr (Str s)"
  by (simp add: cfg_get_def example_config_def and_then_def)

lemma example_names:
  "cfg_get (example_config s) ''main'' ''project_name'' = Inr (Str ''nyc_airbnb'')"
  "cfg_get (example_config s) ''main'' ''experiment_name'' = Inr (Str ''development'')"
  by (simp_all add: cfg_get_def example_config_def and_then_def)

lemma example_random_forest:
  "cfg_get (example_config s) ''modeling'' ''random_forest'' = Inr (Dict example_rf_items)"
  by (simp add: cfg_get_def example_config_def and_then_def example_rf_items_def)

lemma example_agree:
  "(section, key) \<noteq> (''main'', ''steps'') \<Longrightarrow>
   cfg_get (example_config s') section key = cfg_get (example_config s) section key"
  by (simp add: cfg_get_def example_config_def and_then_def)

text \<open>
  Claim C2 as stated fails: with \<open>main.steps = "all"\<close> and every run succeeding, \<open>go\<close>
  returns normally and has not invoked \<open>test_regression_model\<close>.
\<close>

theorem all_skips_test_regression_model:
  "snd (go example_env (example_config ''all'')) = Inr () \<and>
   TestRegressionModel \<notin> set (invoked (fst (go example_env (example_config ''all''))))"
  by (simp add: go_example_all invoked_def)

text \<open>
  Claim C4 on \<open>"data_check,download"\<close> and \<open>"download,data_check"\<close>: the same execution.
\<close>

theorem go_invokes_in_program_order_witness:
  "active_steps (example_config ''download,data_check'') = Inr [''download'', ''data_check''] \<and>
   active_steps (example_config ''data_check,download'') = Inr [''data_check'', ''download''] \<and>
   recognized [''data_check'', ''download''] = recognized [''download'', ''data_check''] \<and>
   go example_env (example_config ''data_check,download'')
     = go example_env (example_config ''download,data_check'') \<and>
   subseq (invoked (fst (go example_env (example_config ''data_check,download'')))) program_order"
proof -
  let ?c = "example_config ''download,data_check''" and ?c' = "example_config ''data_check,download''"
  have a: "active_steps ?c = Inr [''download'', ''data_check'']"
    by (simp add: active_steps_not_all [OF example_steps])
  have a': "active_steps ?c' = Inr [''data_check'', ''download'']"
    by (simp add: active_steps_not_all [OF example_steps])
  have r: "recognized [''data_check'', ''download''] = recognized [''download'', ''data_check'']"
    by (simp add: recognized_def stage_names_def program_order_def)
  have g: "\<forall>section key. (section, key) \<noteq> (''main'', ''steps'') \<longrightarrow>
             cfg_get ?c' section key = cfg_get ?c section key"
    using example_agree by blast
  from go_invokes_in_program_order [of example_env ?c] g a a' r
  have e: "go example_env ?c' = go example_env ?c" by blast
  from go_invokes_in_program_order [of example_env ?c']
  have s: "subseq (invoked (fst (go example_env ?c'))) program_order" by blast
  from a a' r e s show ?thesis by blast
qed

text \<open>
  Claim C6 where the run of \<open>basic_cleaning\<close> raises: that exception is the result, and
  the failing call is followed by the removal of the temporary directory only.
\<close>

theorem run_failure_propagates_witness:
  "(BasicCleaning, example_basic_cleaning_call)
     \<in> set (runs_of (fst (go failing_env (example_config ''all'')))) \<and>
   mlflow_run failing_env example_basic_cleaning_call = Some ExecutionException \<and>
   snd (go failing_env (example_config ''all'')) = Inl ExecutionException \<and>
   (\<exists>pre. fst (go failing_env (example_config ''all'')) =
      pre @ [Run BasicCleaning example_basic_cleaning_call, RmTmpDir (mkdtemp failing_env)])"
proof -
  have r: "(BasicCleaning, example_basic_cleaning_call)
             \<in> set (runs_of (fst (go failing_env (example_config ''all''))))"
    by (simp add: go_failing_all)
  have f: "mlflow_run failing_env example_basic_cleaning_call = Some ExecutionException"
    by (simp add: failing_env_def example_basic_cleaning_call_def)
  from run_failure_propagates [OF r f] r f show ?thesis by blast
qed



text \<open>
  Claim C8 as stated fails: two executions on one configuration, in two working
  directories, forward different dictionaries to the training stage.
\<close>

theorem parameters_differ_between_working_directories:
  "runs_of (fst (go example_env (example_config ''train_random_forest'')))
     = [(TrainRandomForest, example_train_call ''/run/a/rf_config.json'')] \<and>
   runs_of (fst (go moved_env (example_config ''train_random_forest'')))
     = [(TrainRandomForest, example_train_call ''/run/b/rf_config.json'')] \<and>
   parameters (example_train_call ''/run/a/rf_config.json'')
     \<noteq> parameters (example_train_call ''/run/b/rf_config.json'')"
  by (simp add: go_example_train go_moved_train example_train_call_def)

text \<open>
  The two executions of the training stage agree outside \<open>rf_config\<close>; two executions in
  the same working directory forward the same dictionary to \<open>basic_cleaning\<close>.
\<close>

theorem go_deterministic_up_to_rf_config_witness:
  "snd (go example_env (example_config ''train_random_forest'')) = Inr () \<and>
   snd (go moved_env (example_config ''train_random_forest'')) = Inr () \<and>
   invoked (fst (go moved_env (example_config ''train_random_forest'')))
     = invoked (fst (go example_env (example_config ''train_random_forest''))) \<and>
   (TrainRandomForest, example_train_call ''/run/a/rf_config.json'')
     \<in> set (runs_of (fst (go example_env (example_config ''train_random_forest'')))) \<and>
   (TrainRandomForest, example_train_call ''/run/b/rf_config.json'')
     \<in> set (runs_of (fst (go moved_env (example_config ''train_random_forest'')))) \<and>
   filter (\<lambda>kv. fst kv \<noteq> ''rf_config'') (parameters (example_train_call ''/run/b/rf_config.json''))
     = filter (\<lambda>kv. fst kv \<noteq> ''rf_config'') (parameters (example_train_call ''/run/a/rf_config.json'')) \<and>
   abspath failing_env ''rf_config.json'' = abspath example_env ''rf_config.json'' \<and>
   (BasicCleaning, example_basic_cleaning_call)
     \<in> set (runs_of (fst (go example_env (example_config ''all'')))) \<and>
   (BasicCleaning, example_basic_cleaning_call)
     \<in> set (runs_of (fst (go failing_env (example_config ''all''))))"
proof -
  let ?c = "example_config ''train_random_forest''"
  have ok1: "snd (go example_env ?c) = Inr ()" by (simp add: go_example_train)
  have ok2: "snd (go moved_env ?c) = Inr ()" by (simp add: go_moved_train)
  have r1: "(TrainRandomForest, example_train_call ''/run/a/rf_config.json'')
              \<in> set (runs_of (fst (go example_env ?c)))"
    by (simp add: go_example_train)
  have r2: "(TrainRandomForest, example_train_call ''/run/b/rf_config.json'')
              \<in> set (runs_of (fst (go moved_env ?c)))"
    by (simp add: go_moved_train)
  have p: "abspath failing_env ''rf_config.json'' = abspath example_env ''rf_config.json''"
    by (simp add: failing_env_def)
  have b1: "(BasicCleaning, example_basic_cleaning_call)
              \<in> set (runs_of (fst (go example_env (example_config ''all''))))"
    by (simp add: go_example_all)
  have b2: "(BasicCleaning, example_basic_cleaning_call)
              \<in> set (runs_of (fst (go failing_env (example_config ''all''))))"
    by (simp add: go_failing_all)
  note d = go_deterministic_up_to_rf_config [of ?c ?c example_env moved_env, OF refl]
  from d ok1 ok2
  have i: "invoked (fst (go moved_env ?c)) = invoked (fst (go example_env ?c))" by blast
  from d r1 r2
  have f: "filter (\<lambda>kv. fst kv \<noteq> ''rf_config'') (parameters (example_train_call ''/run/b/rf_config.json''))
     = filter (\<lambda>kv. fst kv \<noteq> ''rf_config'') (parameters (example_train_call ''/run/a/rf_config.json''))"
    by blast
  from go_deterministic_up_to_rf_config
         [of "example_config ''all''" "example_config ''all''" example_env failing_env, OF refl]
       b1 b2 p
  have "parameters example_basic_cleaning_call = parameters example_basic_cleaning_call"
    by blast
  with ok1 ok2 i r1 r2 f p b1 b2 show ?thesis by blast
qed

text \<open>
  Claim C9 on \<open>"All, download,"\<close>: wrong capitalization, a leading blank and an empty
  element; nothing is invoked and \<open>go\<close> returns normally.
\<close>

theorem unrecognized_step_names_are_ignored_witness:
  "cfg_get (example_config ''All, download,'') ''main'' ''steps'' = Inr (Str ''All, download,'') \<and>
   ''All, download,'' \<noteq> ''all'' \<and>
   py_split CHR '','' ''All, download,'' = [''All'', '' download'', ''''] \<and>
   recognized (py_split CHR '','' ''All, download,'') = [] \<and>
   go example_env (example_config ''All, download,'') =
     ([SetEnv ''WANDB_PROJECT'' ''nyc_airbnb'', SetEnv ''WANDB_RUN_GROUP'' ''development'',
       MkTmpDir (mkdtemp example_env), RmTmpDir (mkdtemp example_env)], Inr ()) \<and>
   go example_env (example_config ''x'') = go example_env (example_config ''All, download,'') \<and>
   invoked (fst (go example_env (example_config ''''))) = [] \<and>
   Download \<in> set (invoked (fst (go example_env (example_config ''download'')))) \<and>
   stage_name Download \<in> set (py_split CHR '','' ''download'')"
proof -
  let ?s = "''All, download,''"
  let ?c = "example_config ?s"
  have h1: "cfg_get ?c ''main'' ''steps'' = Inr (Str ?s)" by (rule example_steps)
  have h2: "?s \<noteq> ''all''" by simp
  have sp: "py_split CHR '','' ?s = [''All'', '' download'', '''']" by simp
  have rc: "recognized (py_split CHR '','' ?s) = []"
    by (simp add: recognized_def stage_names_def program_order_def)
  note u = unrecognized_step_names_are_ignored [OF h1 h2, of example_env]
  from u rc example_names [of ?s]
  have g: "go example_env ?c =
     ([SetEnv ''WANDB_PROJECT'' ''nyc_airbnb'', SetEnv ''WANDB_RUN_GROUP'' ''development'',
       MkTmpDir (mkdtemp example_env), RmTmpDir (mkdtemp example_env)], Inr ())"
    by blast
  have x1: "cfg_get (example_config ''x'') ''main'' ''steps'' = Inr (Str ''x'')"
    by (rule example_steps)
  have x2: "''x'' \<noteq> ''all''" by simp
  have x3: "recognized (py_split CHR '','' ''x'') = recognized (py_split CHR '','' ?s)"
    by (simp add: recognized_def stage_names_def program_order_def)
  have x4: "\<forall>section key. (section, key) \<noteq> (''main'', ''steps'') \<longrightarrow>
              cfg_get (example_config ''x'') section key = cfg_get ?c section key"
    using example_agree by blast
  from u x1 x2 x3 x4
  have e: "go example_env (example_config ''x'') = go example_env ?c" by blast
  have "'''' \<noteq> ''all''" by simp
  from unrecognized_step_names_are_ignored [OF example_steps this, of example_env]
  have n: "invoked (fst (go example_env (example_config ''''))) = []" by blast
  have d: "Download \<in> set (invoked (fst (go example_env (example_config ''download''))))"
    by (simp add: go_example_download invoked_def)
  have "''download'' \<noteq> ''all''" by simp
  from unrecognized_step_names_are_ignored [OF example_steps this, of example_env] d
  have m: "stage_name Download \<in> set (py_split CHR '','' ''download'')" by blast
  from h1 h2 sp rc g e n d m show ?thesis by blast
qed

text \<open>Claim C7 on \<open>"download,download"\<close>: one call of the download stage.\<close>

theorem go_invokes_each_stage_at_most_once_witness:
  "go example_env (example_config ''download,download'') = go example_env (example_config ''download'') \<and>
   invoked (fst (go example_env (example_config ''download,download''))) = [Download] \<and>
   distinct (invoked (fst (go example_env (example_config ''download,download'')))) \<and>
   length (filter (\<lambda>s. s = Download)
             (invoked (fst (go example_env (example_config ''download,download''))))) \<le> 1"
proof -
  have e: "go example_env (example_config ''download,download'')
             = go example_env (example_config ''download'')"
    by (rule go_cong [where a = "[''download'']" and a' = "[''download'', ''download'']"])
       (simp_all add: example_agree active_steps_not_all [OF example_steps] recognized_def
          stage_names_def program_order_def)
  then have i: "invoked (fst (go example_env (example_config ''download,download''))) = [Download]"
    by (simp add: go_example_download invoked_def)
  from go_invokes_each_stage_at_most_once
         [of example_env "example_config ''download,download''" Download] e i
  show ?thesis by blast
qed

text \<open>
  The example configuration has every entry the stages read, and every run of the first
  environment returns; in the failing environment the run of \<open>basic_cleaning\<close> does not.
\<close>

lemma list_all_always: "(\<And>x. P x) \<Longrightarrow> list_all P xs"
  by (simp add: list_all_iff)

lemma example_names_ok: "names_ok (example_config s)"
  by (simp add: names_ok_def has_string_def example_names)

lemma example_rf_items_ok: "rf_items (example_config s) = Some example_rf_items"
  by (simp add: rf_items_def example_random_forest example_rf_items_def)

lemma example_ready: "stage_ready (example_config s) st"
  using example_rf_items_ok [of s]
  by (cases st)
     (simp_all add: has_entry_def has_string_def has_artifact_def
        cfg_get_def example_config_def and_then_def)

lemma example_returns: "stage_returns example_env (example_config s) st"
proof -
  from example_ready [of s st] stage_ready_iff [of "example_config s" st example_env]
  obtain c where "stage_args example_env (example_config s) st = Inr c" by blast
  then show ?thesis
    by (simp add: stage_returns_def example_ready example_env_def)
qed

lemma failing_basic_cleaning_args:
  "stage_args failing_env (example_config s) BasicCleaning = Inr example_basic_cleaning_call"
  by (simp add: stage_args_def run_args_def local_uri_def basic_cleaning_parameters_def
        artifact_ref_def cfg_get_def and_then_def example_defs)

lemma failing_basic_cleaning: "\<not> stage_returns failing_env (example_config s) BasicCleaning"
proof -
  have "mlflow_run failing_env example_basic_cleaning_call = Some ExecutionException"
    by (simp add: failing_env_def example_basic_cleaning_call_def)
  then show ?thesis
    by (simp add: stage_returns_def failing_basic_cleaning_args)
qed

lemma bare_names: "\<not> names_ok bare_config"
  by (simp add: names_ok_def has_string_def cfg_get_def and_then_def bare_config_def)

lemma go_example_six:
  "go example_env
     (example_config
        ''download,basic_cleaning,data_check,data_split,train_random_forest,test_regression_model'') =
     ([SetEnv ''WANDB_PROJECT'' ''nyc_airbnb'', SetEnv ''WANDB_RUN_GROUP'' ''development'',
       MkTmpDir ''/tmp/tmp0'',
       Run Download example_download_call,
       Run BasicCleaning example_basic_cleaning_call,
       Run DataCheck example_data_check_call,
       Run DataSplit example_data_split_call,
       OpenWrite ''/run/a/rf_config.json'',
       JsonDump ''/run/a/rf_config.json'' example_rf_items,
       Run TrainRandomForest (example_train_call ''/run/a/rf_config.json''),
       Run TestRegressionModel example_test_call,
       RmTmpDir ''/tmp/tmp0''],
      Inr ())"
  by (simp add: model_defs example_defs example_test_call_def)

lemma go_failing_cleaning_check:
  "go failing_env (example_config ''basic_cleaning,data_check'') =
     ([SetEnv ''WANDB_PROJECT'' ''nyc_airbnb'', SetEnv ''WANDB_RUN_GROUP'' ''development'',
       MkTmpDir ''/tmp/tmp0'',
       Run BasicCleaning example_basic_cleaning_call,
       RmTmpDir ''/tmp/tmp0''],
      Inl ExecutionException)"
  by (simp add: model_defs example_defs)

lemma go_failing_cleaning_train:
  "go failing_env (example_config ''basic_cleaning,train_random_forest'') =
     ([SetEnv ''WANDB_PROJECT'' ''nyc_airbnb'', SetEnv ''WANDB_RUN_GROUP'' ''development'',
       MkTmpDir ''/tmp/tmp0'',
       Run BasicCleaning example_basic_cleaning_call,
       RmTmpDir ''/tmp/tmp0''],
      Inl ExecutionException)"
  by (simp add: model_defs example_defs)

text \<open>
  Claim C1 as stated fails: with \<open>main.steps = "basic_cleaning,data_check"\<close> and a run of
  \<open>basic_cleaning\<close> that raises, \<open>data_check\<close> is a recognized element of the split and is
  not invoked.
\<close>

theorem listed_stage_not_invoked_after_failure:
  "cfg_get (example_config ''basic_cleaning,data_check'') ''main'' ''steps''
     = Inr (Str ''basic_cleaning,data_check'') \<and>
   ''basic_cleaning,data_check'' \<noteq> ''all'' \<and>
   invoked (fst (go failing_env (example_config ''basic_cleaning,data_check''))) = [BasicCleaning] \<and>
   ''data_check'' \<in> {n \<in> set stage_names. n \<in> set (py_split CHR '','' ''basic_cleaning,data_check'')} \<and>
   stage_name ` set (invoked (fst (go failing_env (example_config ''basic_cleaning,data_check''))))
     \<noteq> {n \<in> set stage_names. n \<in> set (py_split CHR '','' ''basic_cleaning,data_check'')}"
proof -
  let ?s = "''basic_cleaning,data_check''"
  have i: "invoked (fst (go failing_env (example_config ?s))) = [BasicCleaning]"
    by (simp add: go_failing_cleaning_check invoked_def)
  have m: "''data_check'' \<in> {n \<in> set stage_names. n \<in> set (py_split CHR '','' ?s)}"
    by (simp add: stage_names_def program_order_def)
  have n: "''data_check'' \<notin> stage_name ` set (invoked (fst (go failing_env (example_config ?s))))"
    by (simp add: i)
  from m n have "stage_name ` set (invoked (fst (go failing_env (example_config ?s))))
     \<noteq> {n \<in> set stage_names. n \<in> set (py_split CHR '','' ?s)}"
    by blast
  with i m example_steps [of ?s] show ?thesis by simp
qed

text \<open>
  All six stages listed, every run returning: all six are invoked. And the failing run
  above: the walk stops after \<open>basic_cleaning\<close>, which is ready and does not return.
\<close>

theorem go_invokes_listed_stages_witness:
  "names_ok (example_config
     ''download,basic_cleaning,data_check,data_split,train_random_forest,test_regression_model'') \<and>
   list_all (stage_returns example_env (example_config
     ''download,basic_cleaning,data_check,data_split,train_random_forest,test_regression_model''))
     (filter (\<lambda>st. stage_name st \<in> set (py_split CHR '',''
        ''download,basic_cleaning,data_check,data_split,train_random_forest,test_regression_model''))
        program_order) \<and>
   stage_name ` set (invoked (fst (go example_env (example_config
     ''download,basic_cleaning,data_check,data_split,train_random_forest,test_regression_model''))))
     = {n \<in> set stage_names. n \<in> set (py_split CHR '',''
        ''download,basic_cleaning,data_check,data_split,train_random_forest,test_regression_model'')} \<and>
   invoked (fst (go example_env (example_config
     ''download,basic_cleaning,data_check,data_split,train_random_forest,test_regression_model'')))
     = [Download, BasicCleaning, DataCheck, DataSplit, TrainRandomForest, TestRegressionModel] \<and>
   names_ok (example_config ''basic_cleaning,data_check'') \<and>
   stage_ready (example_config ''basic_cleaning,data_check'') BasicCleaning \<and>
   \<not> stage_returns failing_env (example_config ''basic_cleaning,data_check'') BasicCleaning \<and>
   invoked (fst (go failing_env (example_config ''basic_cleaning,data_check''))) = [BasicCleaning]"
proof -
  let ?s = "''download,basic_cleaning,data_check,data_split,train_random_forest,test_regression_model''"
  let ?b = "''basic_cleaning,data_check''"
  have h2: "?s \<noteq> ''all''" by simp
  have n: "names_ok (example_config ?s)" by (rule example_names_ok)
  have r: "list_all (stage_returns example_env (example_config ?s))
             (filter (\<lambda>st. stage_name st \<in> set (py_split CHR '','' ?s)) program_order)"
    by (rule list_all_always) (rule example_returns)
  from go_invokes_listed_stages [OF example_steps h2, of example_env] n r
  have e: "stage_name ` set (invoked (fst (go example_env (example_config ?s))))
             = {n \<in> set stage_names. n \<in> set (py_split CHR '','' ?s)}"
    by blast
  have i: "invoked (fst (go example_env (example_config ?s)))
             = [Download, BasicCleaning, DataCheck, DataSplit, TrainRandomForest, TestRegressionModel]"
    by (simp add: go_example_six invoked_def)
  have b2: "?b \<noteq> ''all''" by simp
  have nb: "names_ok (example_config ?b)" by (rule example_names_ok)
  have rb: "stage_ready (example_config ?b) BasicCleaning" by (rule example_ready)
  have fb: "\<not> stage_returns failing_env (example_config ?b) BasicCleaning"
    by (rule failing_basic_cleaning)
  have sel: "filter (\<lambda>st. stage_name st \<in> set (py_split CHR '','' ?b)) program_order
               = [BasicCleaning, DataCheck]"
    by (simp add: program_order_def)
  from go_invokes_listed_stages [OF example_steps b2, of failing_env] nb
  have "invoked (fst (go failing_env (example_config ?b))) =
          called_stages (stage_ready (example_config ?b)) (stage_returns failing_env (example_config ?b))
            (filter (\<lambda>st. stage_name st \<in> set (py_split CHR '','' ?b)) program_order)"
    by blast
  with sel rb fb have ib: "invoked (fst (go failing_env (example_config ?b))) = [BasicCleaning]"
    by simp
  from n r e i nb rb fb ib show ?thesis by blast
qed

text \<open>
  The five stages of \<open>"all"\<close> on the example, and the prefix of them that is invoked when
  the run of \<open>basic_cleaning\<close> raises.
\<close>

theorem all_runs_five_stages_witness:
  "cfg_get (example_config ''all'') ''main'' ''steps'' = Inr (Str ''all'') \<and>
   names_ok (example_config ''all'') \<and>
   list_all (stage_returns example_env (example_config ''all''))
     [Download, BasicCleaning, DataCheck, DataSplit] \<and>
   stage_ready (example_config ''all'') TrainRandomForest \<and>
   invoked (fst (go example_env (example_config ''all''))) =
     [Download, BasicCleaning, DataCheck, DataSplit, TrainRandomForest] \<and>
   prefix (invoked (fst (go failing_env (example_config ''all''))))
     [Download, BasicCleaning, DataCheck, DataSplit, TrainRandomForest] \<and>
   invoked (fst (go failing_env (example_config ''all''))) = [Download, BasicCleaning] \<and>
   TestRegressionModel \<notin> set (invoked (fst (go failing_env (example_config ''all''))))"
proof -
  let ?c = "example_config ''all''"
  have h: "cfg_get ?c ''main'' ''steps'' = Inr (Str ''all'')" by (rule example_steps)
  have n: "names_ok ?c" by (rule example_names_ok)
  have r: "list_all (stage_returns example_env ?c) [Download, BasicCleaning, DataCheck, DataSplit]"
    by (rule list_all_always) (rule example_returns)
  have t: "stage_ready ?c TrainRandomForest" by (rule example_ready)
  from all_runs_five_stages [OF h, of example_env] n r t
  have i: "invoked (fst (go example_env ?c)) =
             [Download, BasicCleaning, DataCheck, DataSplit, TrainRandomForest]"
    by blast
  from all_runs_five_stages [OF h, of failing_env]
  have p: "prefix (invoked (fst (go failing_env ?c)))
             [Download, BasicCleaning, DataCheck, DataSplit, TrainRandomForest]"
    and x: "TestRegressionModel \<notin> set (invoked (fst (go failing_env ?c)))"
    by blast+
  have f: "invoked (fst (go failing_env ?c)) = [Download, BasicCleaning]"
    by (simp add: go_failing_all invoked_def)
  from h n r t i p f x show ?thesis by blast
qed

text \<open>
  Claim C10 as stated fails: \<open>data_check\<close> is in the list of active steps and is not
  invoked, since the run of \<open>basic_cleaning\<close> before it raises.
\<close>

theorem active_stage_not_invoked_after_failure:
  "active_steps (example_config ''basic_cleaning,data_check'')
     = Inr [''basic_cleaning'', ''data_check''] \<and>
   stage_name DataCheck \<in> set [''basic_cleaning'', ''data_check''] \<and>
   DataCheck \<notin> set (invoked (fst (go failing_env (example_config ''basic_cleaning,data_check''))))"
  by (simp add: active_steps_not_all [OF example_steps] go_failing_cleaning_check invoked_def)

text \<open>
  Claim C10 on \<open>main.steps = "train_random_forest"\<close>: training is invoked, download is not.
  On \<open>"data_split,test_regression_model"\<close> the test stage is invoked after the split has
  returned; after the failing \<open>basic_cleaning\<close> the check is not invoked; and a
  configuration without the two names invokes nothing.
\<close>

theorem go_invokes_iff_active_witness:
  "active_steps (example_config ''train_random_forest'') = Inr [''train_random_forest''] \<and>
   names_ok (example_config ''train_random_forest'') \<and>
   stage_ready (example_config ''train_random_forest'') TrainRandomForest \<and>
   TrainRandomForest
     \<in> set (invoked (fst (go example_env (example_config ''train_random_forest'')))) \<and>
   Download \<notin> set (invoked (fst (go example_env (example_config ''train_random_forest'')))) \<and>
   active_steps (example_config ''data_split,test_regression_model'')
     = Inr [''data_split'', ''test_regression_model''] \<and>
   stage_returns example_env (example_config ''data_split,test_regression_model'') DataSplit \<and>
   TestRegressionModel
     \<in> set (invoked (fst (go example_env (example_config ''data_split,test_regression_model'')))) \<and>
   DataCheck \<notin> set (invoked (fst (go failing_env (example_config ''basic_cleaning,data_check'')))) \<and>
   active_steps bare_config = Inr [''download''] \<and> \<not> names_ok bare_config \<and>
   Download \<notin> set (invoked (fst (go example_env bare_config)))"
proof -
  let ?t = "example_config ''train_random_forest''"
  let ?d = "example_config ''data_split,test_regression_model''"
  let ?b = "example_config ''basic_cleaning,data_check''"
  have at: "active_steps ?t = Inr [''train_random_forest'']"
    by (simp add: active_steps_not_all [OF example_steps])
  have ad: "active_steps ?d = Inr [''data_split'', ''test_regression_model'']"
    by (simp add: active_steps_not_all [OF example_steps])
  have ab: "active_steps ?b = Inr [''basic_cleaning'', ''data_check'']"
    by (simp add: active_steps_not_all [OF example_steps])
  have a0: "active_steps bare_config = Inr [''download'']"
    by (simp add: active_steps_def cfg_get_def and_then_def bare_config_def)
  have t: "TrainRandomForest \<in> set (invoked (fst (go example_env ?t)))"
    using go_invokes_iff_active [OF at, of TrainRandomForest example_env]
      example_names_ok [of "''train_random_forest''"]
      example_ready [of "''train_random_forest''" TrainRandomForest]
    by (simp add: earlier_simps)
  have d: "Download \<notin> set (invoked (fst (go example_env ?t)))"
    using go_invokes_iff_active [OF at, of Download example_env] by auto
  have x: "TestRegressionModel \<in> set (invoked (fst (go example_env ?d)))"
    using go_invokes_iff_active [OF ad, of TestRegressionModel example_env]
      example_names_ok [of "''data_split,test_regression_model''"]
      example_ready [of "''data_split,test_regression_model''" TestRegressionModel]
      example_returns [of "''data_split,test_regression_model''" DataSplit]
    by (simp add: earlier_simps)
  have c: "DataCheck \<notin> set (invoked (fst (go failing_env ?b)))"
    using go_invokes_iff_active [OF ab, of DataCheck failing_env]
      example_names_ok [of "''basic_cleaning,data_check''"]
      failing_basic_cleaning [of "''basic_cleaning,data_check''"]
    by (simp add: earlier_simps)
  have n: "Download \<notin> set (invoked (fst (go example_env bare_config)))"
    using go_invokes_iff_active [OF a0, of Download example_env] bare_names by blast
  from at ad a0 t d x c n example_names_ok [of "''train_random_forest''"]
    example_ready [of "''train_random_forest''" TrainRandomForest]
    example_returns [of "''data_split,test_regression_model''" DataSplit] bare_names
  show ?thesis by blast
qed

text \<open>
  Claim C5 as stated fails: \<open>train_random_forest\<close> is active and no file is written,
  since the run of \<open>basic_cleaning\<close> before it raises.
\<close>

theorem active_training_without_file:
  "active_steps (example_config ''basic_cleaning,train_random_forest'')
     = Inr [''basic_cleaning'', ''train_random_forest''] \<and>
   ''train_random_forest'' \<in> set [''basic_cleaning'', ''train_random_forest''] \<and>
   writes_of (fst (go failing_env (example_config ''basic_cleaning,train_random_forest''))) = []"
  by (simp add: active_steps_not_all [OF example_steps] go_failing_cleaning_train)

text \<open>
  Claim C5 on \<open>main.steps = "all"\<close>: one file, opened and written once; nothing written
  after the failing \<open>basic_cleaning\<close> or without the two names.
\<close>

theorem go_writes_only_rf_config_witness:
  "names_ok (example_config ''all'') \<and> active_steps (example_config ''all'') = Inr steps \<and>
   ''train_random_forest'' \<in> set steps \<and>
   list_all (stage_returns example_env (example_config ''all''))
     (filter (\<lambda>st. stage_name st \<in> set steps) (earlier TrainRandomForest)) \<and>
   rf_items (example_config ''all'') = Some example_rf_items \<and>
   writes_of (fst (go example_env (example_config ''all''))) =
     [OpenWrite (abspath example_env ''rf_config.json''),
      JsonDump (abspath example_env ''rf_config.json'') example_rf_items] \<and>
   writes_of (fst (go failing_env (example_config ''basic_cleaning,train_random_forest''))) = [] \<and>
   \<not> names_ok bare_config \<and> writes_of (fst (go example_env bare_config)) = [] \<and>
   tmp_dirs (fst (go example_env (example_config ''all''))) [] = []"
proof -
  let ?c = "example_config ''all''"
  let ?f = "example_config ''basic_cleaning,train_random_forest''"
  have n: "names_ok ?c" by (rule example_names_ok)
  have a: "active_steps ?c = Inr steps"
    by (rule active_steps_all) (rule example_steps)
  have t: "''train_random_forest'' \<in> set steps" by (simp add: steps_def)
  have r: "list_all (stage_returns example_env ?c)
             (filter (\<lambda>st. stage_name st \<in> set steps) (earlier TrainRandomForest))"
    by (rule list_all_always) (rule example_returns)
  have i: "rf_items ?c = Some example_rf_items" by (rule example_rf_items_ok)
  note w = go_writes_only_rf_config [of example_env ?c]
  from w n a have "writes_of (fst (go example_env ?c)) =
        (if ''train_random_forest'' \<in> set steps \<and>
            list_all (stage_returns example_env ?c)
              (filter (\<lambda>st. stage_name st \<in> set steps) (earlier TrainRandomForest))
         then OpenWrite (abspath example_env ''rf_config.json'') #
                (case rf_items ?c of
                   Some items \<Rightarrow> [JsonDump (abspath example_env ''rf_config.json'') items]
                 | None \<Rightarrow> [])
         else [])"
    by blast
  with t r i have wr: "writes_of (fst (go example_env ?c)) =
     [OpenWrite (abspath example_env ''rf_config.json''),
      JsonDump (abspath example_env ''rf_config.json'') example_rf_items]"
    by simp
  from w have tm: "tmp_dirs (fst (go example_env ?c)) [] = []" by blast
  have af: "active_steps ?f = Inr [''basic_cleaning'', ''train_random_forest'']"
    by (simp add: active_steps_not_all [OF example_steps])
  from go_writes_only_rf_config [of failing_env ?f] af
    example_names_ok [of "''basic_cleaning,train_random_forest''"]
  have "writes_of (fst (go failing_env ?f)) =
        (if ''train_random_forest'' \<in> set [''basic_cleaning'', ''train_random_forest''] \<and>
            list_all (stage_returns failing_env ?f)
              (filter (\<lambda>st. stage_name st \<in> set [''basic_cleaning'', ''train_random_forest''])
                 (earlier TrainRandomForest))
         then OpenWrite (abspath failing_env ''rf_config.json'') #
                (case rf_items ?f of
                   Some items \<Rightarrow> [JsonDump (abspath failing_env ''rf_config.json'') items]
                 | None \<Rightarrow> [])
         else [])"
    by blast
  with failing_basic_cleaning [of "''basic_cleaning,train_random_forest''"]
  have wf: "writes_of (fst (go failing_env ?f)) = []"
    by (simp add: earlier_simps)
  from go_writes_only_rf_config [of example_env bare_config] bare_names
  have wb: "writes_of (fst (go example_env bare_config)) = []" by blast
  from n a t r i wr wf wb tm bare_names show ?thesis by blast
qed

end
